theory Spec2Isabelle
  imports Complex_Main "HOL-Library.Sublist"
begin

section \<open>ShareStuff (item sharing): data model\<close>

text \<open>
  The tables of \<^verbatim>\<open>sharestuff.db\<close> are lists of rows, in rowid order. Only the
  columns read or written by \<^verbatim>\<open>find_matches\<close> and
  \<^verbatim>\<open>update_transaction_status\<close> are kept. A nullable TEXT or REAL column is an
  \<open>option\<close>. SQLite REAL and Python \<^verbatim>\<open>float\<close> values are idealised as
  \<^typ>\<open>real\<close>: rounding is not modelled.
\<close>

record iuser_row =
  iu_id :: nat
  iu_username :: string
  iu_rating :: "real option"

record item_row =
  i_id :: nat
  i_user_id :: nat
  i_title :: string
  i_price :: real
  i_category :: string
  i_condition :: string
  i_location :: "string option"
  i_tags :: "string option"
  i_available_for :: string
  i_status :: string
  i_created_at :: nat

record transaction_row =
  tr_id :: nat
  tr_item_id :: nat
  tr_requested_by :: nat
  tr_type :: string
  tr_status :: string
  tr_matched_item_id :: "nat option"

record item_db =
  i_users :: "iuser_row list"
  items :: "item_row list"
  transactions :: "transaction_row list"

text \<open>The dictionary appended to \<^verbatim>\<open>matches\<close> by \<^verbatim>\<open>find_matches\<close>.\<close>

record match =
  m_id :: nat
  m_title :: string
  m_price :: real
  m_category :: string
  m_condition :: string
  m_username :: string
  m_user_rating :: real
  m_match_score :: int
  m_type :: string
  m_available_for :: string

datatype py_error = ZeroDivisionError | TypeError

section \<open>ShareStuff: string helpers of the scorer\<close>

text \<open>
  Python's \<^verbatim>\<open>str.split(',')\<close>, \<^verbatim>\<open>str.strip()\<close> and \<^verbatim>\<open>str.lower()\<close>,
  on the ASCII range: a \<^typ>\<open>char\<close> is a byte, so characters beyond ASCII are left as
  they are by \<open>lower\<close> and are never white space.
\<close>

fun split_on :: "char \<Rightarrow> string \<Rightarrow> string list" where
  "split_on c [] = [[]]"
| "split_on c (x # xs) =
     (if x = c then [] # split_on c xs
      else (case split_on c xs of
              [] \<Rightarrow> [[x]]
            | w # ws \<Rightarrow> (x # w) # ws))"

definition is_space :: "char \<Rightarrow> bool" where
  "is_space c =
     (let n = (of_char c :: nat) in (9 \<le> n \<and> n \<le> 13) \<or> (28 \<le> n \<and> n \<le> 32))"

definition strip :: "string \<Rightarrow> string" where
  "strip s = rev (dropWhile is_space (rev (dropWhile is_space s)))"

definition lower_char :: "char \<Rightarrow> char" where
  "lower_char c =
     (let n = (of_char c :: nat) in if 65 \<le> n \<and> n \<le> 90 then char_of (n + 32) else c)"

definition lower :: "string \<Rightarrow> string" where
  "lower s = map lower_char s"

text \<open>Truthiness of a nullable TEXT value: \<^verbatim>\<open>None\<close> and \<^verbatim>\<open>''\<close> are falsy.\<close>

definition truthy :: "string option \<Rightarrow> bool" where
  "truthy v = (case v of None \<Rightarrow> False | Some s \<Rightarrow> s \<noteq> [])"

definition text_of :: "string option \<Rightarrow> string" where
  "text_of v = (case v of None \<Rightarrow> ''None'' | Some s \<Rightarrow> s)"

section \<open>ShareStuff: \<^verbatim>\<open>find_matches\<close>\<close>

text \<open>
  \<^verbatim>\<open>price_diff = abs(item_price - match_price) / max(item_price, match_price)\<close>:
  both operands are Python floats, and float division by zero raises.
\<close>

definition price_diff :: "real \<Rightarrow> real \<Rightarrow> py_error + real" where
  "price_diff item_price match_price =
     (if max item_price match_price = 0 then Inl ZeroDivisionError
      else Inr (\<bar>item_price - match_price\<bar> / max item_price match_price))"

definition category_points :: "item_row \<Rightarrow> item_row \<Rightarrow> int" where
  "category_points item match_item =
     (if i_category item = i_category match_item then 40 else 0)"

definition price_points :: "real \<Rightarrow> int" where
  "price_points d = (if d \<le> 0.2 then 30 else if d \<le> 0.5 then 15 else 0)"

definition first_token :: "string \<Rightarrow> string" where
  "first_token s = lower (strip (hd (split_on CHR '','' s)))"

definition location_points :: "item_row \<Rightarrow> item_row \<Rightarrow> int" where
  "location_points item match_item =
     (if truthy (i_location item) \<and> truthy (i_location match_item) then
        (if first_token (text_of (i_location item)) =
            first_token (text_of (i_location match_item))
         then 20 else 0)
      else 0)"

definition tag_set :: "string \<Rightarrow> string set" where
  "tag_set s = set (map (\<lambda>tag. lower (strip tag)) (split_on CHR '','' s))"

definition tag_points :: "item_row \<Rightarrow> item_row \<Rightarrow> int" where
  "tag_points item match_item =
     (if truthy (i_tags item) \<and> truthy (i_tags match_item) then
        (let common = tag_set (text_of (i_tags item)) \<inter>
                      tag_set (text_of (i_tags match_item))
         in if common \<noteq> {} then min (int (card common) * 5) 10 else 0)
      else 0)"

definition trans_type :: "item_row \<Rightarrow> item_row \<Rightarrow> string" where
  "trans_type item match_item =
     (if i_available_for item \<in> set [''rental'', ''both''] \<and>
         i_available_for match_item \<in> set [''rental'', ''both''] then ''rental''
      else if i_available_for item \<in> set [''barter'', ''both''] \<and>
         i_available_for match_item \<in> set [''barter'', ''both''] then ''barter''
      else ''rental'')"

text \<open>The score of one candidate; the only step that can raise is the price division.\<close>

definition candidate_score :: "item_row \<Rightarrow> item_row \<Rightarrow> py_error + int" where
  "candidate_score item match_item =
     (case price_diff (i_price item) (i_price match_item) of
        Inl e \<Rightarrow> Inl e
      | Inr d \<Rightarrow> Inr (category_points item match_item + price_points d +
                       location_points item match_item + tag_points item match_item))"

definition make_match :: "item_row \<Rightarrow> item_row \<times> iuser_row \<Rightarrow> int \<Rightarrow> match" where
  "make_match item c score =
     \<lparr> m_id = i_id (fst c), m_title = i_title (fst c), m_price = i_price (fst c),
       m_category = i_category (fst c), m_condition = i_condition (fst c),
       m_username = iu_username (snd c),
       m_user_rating = (case iu_rating (snd c) of None \<Rightarrow> 0 | Some r \<Rightarrow> r),
       m_match_score = min score 100,
       m_type = trans_type item (fst c),
       m_available_for = i_available_for (fst c) \<rparr>"

text \<open>
  The body of the \<^verbatim>\<open>for\<close> loop: the candidates are visited in pool order, a match
  is appended when the score reaches 30, and an exception leaves the loop.
\<close>

fun score_all :: "item_row \<Rightarrow> (item_row \<times> iuser_row) list \<Rightarrow> match list \<Rightarrow> py_error + match list" where
  "score_all item [] matches = Inr matches"
| "score_all item (c # cs) matches =
     (case candidate_score item (fst c) of
        Inl e \<Rightarrow> Inl e
      | Inr score \<Rightarrow>
          (if score \<ge> 30 then score_all item cs (matches @ [make_match item c score])
           else score_all item cs matches))"

text \<open>
  The second query: items joined with their owners, without the rows of the source's
  owner and of the current user, available only, newest first. SQL leaves the order of
  rows with equal \<^verbatim>\<open>created_at\<close> open; the model takes one such order.
\<close>

definition potential_items :: "item_db \<Rightarrow> nat \<Rightarrow> nat \<Rightarrow> (item_row \<times> iuser_row) list" where
  "potential_items db owner current_user_id =
     rev (sort_key (\<lambda>c. i_created_at (fst c))
       [(i, u). i \<leftarrow> items db, u \<leftarrow> i_users db,
          i_user_id i = iu_id u \<and> i_user_id i \<noteq> owner \<and>
          i_status i = ''available'' \<and> i_user_id i \<noteq> current_user_id])"

text \<open>
  \<^verbatim>\<open>sorted(xs, key=k, reverse=True)\<close>: CPython reverses the list, sorts it with its
  stable sort and reverses the result.
\<close>

definition sorted_reverse :: "('a \<Rightarrow> int) \<Rightarrow> 'a list \<Rightarrow> 'a list" where
  "sorted_reverse k xs = rev (sort_key k (rev xs))"

text \<open>
  \<^verbatim>\<open>find_matches(item_id, current_user_id)\<close>. Any exception is caught by the
  function's \<^verbatim>\<open>except Exception\<close>, which reports it and returns the empty list.
\<close>

definition find_matches :: "nat \<Rightarrow> nat \<Rightarrow> item_db \<Rightarrow> match list" where
  "find_matches item_id current_user_id db =
     (case find (\<lambda>i. i_id i = item_id) (items db) of
        None \<Rightarrow> []
      | Some item \<Rightarrow>
          (case score_all item (potential_items db (i_user_id item) current_user_id) [] of
             Inl e \<Rightarrow> []
           | Inr matches \<Rightarrow> take 5 (sorted_reverse m_match_score matches)))"

section \<open>ShareStuff: \<^verbatim>\<open>update_transaction_status\<close>\<close>

text \<open>
  The UPDATE is unconditional; for \<^verbatim>\<open>completed\<close> and \<^verbatim>\<open>cancelled\<close> the item of
  the transaction (read back after the UPDATE) is made available again. The function
  returns \<^verbatim>\<open>True\<close> together with the committed store.
\<close>

definition update_transaction_status :: "nat \<Rightarrow> string \<Rightarrow> item_db \<Rightarrow> bool \<times> item_db" where
  "update_transaction_status transaction_id status db =
     (let trs = map (\<lambda>t. if tr_id t = transaction_id then t\<lparr>tr_status := status\<rparr> else t)
                  (transactions db);
          its = (if status \<in> set [''completed'', ''cancelled''] then
                   (case find (\<lambda>t. tr_id t = transaction_id) trs of
                      None \<Rightarrow> items db
                    | Some t \<Rightarrow>
                        map (\<lambda>i. if i_id i = tr_item_id t then i\<lparr>i_status := ''available''\<rparr> else i)
                          (items db))
                 else items db)
      in (True, db\<lparr>transactions := trs, items := its\<rparr>))"

section \<open>SkillSwap (student gigs): data model\<close>

text \<open>
  The tables of \<^verbatim>\<open>skillswap.db\<close>, again as lists of rows in rowid order. Status
  columns are TEXT, as in the schema. \<open>clock\<close> stands for the value of
  \<^verbatim>\<open>CURRENT_TIMESTAMP\<close>. No statement of this application deletes a row, so an
  AUTOINCREMENT key is one more than the largest key of the table.
\<close>

record user_row =
  u_id :: nat
  u_username :: string
  u_skills :: "string option"
  u_rating :: real
  u_completed_tasks :: nat
  u_total_earnings :: real

record gig_row =
  g_id :: nat
  g_user_id :: nat
  g_title :: string
  g_description :: string
  g_category :: string
  g_budget_type :: string
  g_budget_amount :: "real option"
  g_time_estimate :: string
  g_urgency :: string
  g_status :: string
  g_deadline :: string
  g_location :: string

record bid_row =
  b_id :: nat
  b_gig_id :: nat
  b_bidder_id :: nat
  b_amount :: real
  b_estimated_time :: string
  b_proposal :: string
  b_status :: string

record task_row =
  t_id :: nat
  t_gig_id :: nat
  t_bid_id :: nat
  t_client_id :: nat
  t_freelancer_id :: nat
  t_amount :: real
  t_status :: string
  t_completed_at :: "nat option"
  t_client_rating :: "int option"
  t_client_review :: "string option"

record portfolio_row =
  p_id :: nat
  p_user_id :: nat
  p_task_id :: nat
  p_title :: string
  p_description :: string
  p_skills_used :: "string option"
  p_completion_date :: "nat option"
  p_client_feedback :: "string option"
  p_rating :: "int option"

record gig_db =
  users :: "user_row list"
  gigs :: "gig_row list"
  bids :: "bid_row list"
  tasks :: "task_row list"
  portfolio :: "portfolio_row list"
  clock :: nat

definition empty_db :: gig_db where
  "empty_db = \<lparr> users = [], gigs = [], bids = [], tasks = [], portfolio = [], clock = 0 \<rparr>"

definition next_id :: "nat list \<Rightarrow> nat" where
  "next_id ids = Suc (foldr max ids 0)"

section \<open>SkillSwap: gigs and bids\<close>

definition create_gig ::
  "nat \<Rightarrow> string \<Rightarrow> string \<Rightarrow> string \<Rightarrow> string \<Rightarrow> real option \<Rightarrow> string \<Rightarrow> string \<Rightarrow>
   string \<Rightarrow> string \<Rightarrow> gig_db \<Rightarrow> (bool \<times> string) \<times> gig_db" where
  "create_gig user_id title description category budget_type budget_amount
     time_estimate urgency deadline location db =
     (if list_ex (\<lambda>s. s = []) [title, description, category, budget_type, urgency] then
        ((False, ''Please fill all required fields''), db)
      else if budget_type = ''fixed'' \<and>
              (case budget_amount of None \<Rightarrow> True | Some a \<Rightarrow> a \<le> 0) then
        ((False, ''Please enter a valid budget amount''), db)
      else
        ((True, ''Gig created successfully!''),
         db\<lparr>gigs := gigs db @
           [\<lparr> g_id = next_id (map g_id (gigs db)), g_user_id = user_id, g_title = title,
              g_description = description, g_category = category,
              g_budget_type = budget_type, g_budget_amount = budget_amount,
              g_time_estimate = time_estimate, g_urgency = urgency, g_status = ''open'',
              g_deadline = deadline, g_location = location \<rparr>]\<rparr>))"

definition update_gig_status :: "nat \<Rightarrow> string \<Rightarrow> gig_db \<Rightarrow> bool \<times> gig_db" where
  "update_gig_status gig_id status db =
     (True, db\<lparr>gigs := map (\<lambda>g. if g_id g = gig_id then g\<lparr>g_status := status\<rparr> else g)
                           (gigs db)\<rparr>)"

text \<open>
  \<^verbatim>\<open>place_bid\<close>. Every \<^verbatim>\<open>return False, ...\<close> leaves before the INSERT and the
  commit. For a fixed-budget gig whose \<^verbatim>\<open>budget_amount\<close> is NULL the product
  \<^verbatim>\<open>budget_amount * 1.5\<close> raises a TypeError, which the handler turns into a
  failure as well.
\<close>

definition place_bid ::
  "nat \<Rightarrow> nat \<Rightarrow> real \<Rightarrow> string \<Rightarrow> string \<Rightarrow> gig_db \<Rightarrow> (bool \<times> string) \<times> gig_db" where
  "place_bid gig_id bidder_id amount estimated_time proposal db =
     (let inserted =
            db\<lparr>bids := bids db @
              [\<lparr> b_id = next_id (map b_id (bids db)), b_gig_id = gig_id,
                 b_bidder_id = bidder_id, b_amount = amount,
                 b_estimated_time = estimated_time, b_proposal = proposal,
                 b_status = ''pending'' \<rparr>]\<rparr>
      in
      if amount \<le> 0 then ((False, ''Please enter a valid bid amount''), db)
      else if find (\<lambda>b. b_gig_id b = gig_id \<and> b_bidder_id b = bidder_id) (bids db) \<noteq> None then
        ((False, ''You have already placed a bid on this gig''), db)
      else
        (case find (\<lambda>g. g_id g = gig_id) (gigs db) of
           None \<Rightarrow> ((True, ''Bid placed successfully!''), inserted)
         | Some gig \<Rightarrow>
             (if g_budget_type gig = ''fixed'' then
                (case g_budget_amount gig of
                   None \<Rightarrow> ((False, ''Error placing bid: TypeError''), db)
                 | Some budget_amount \<Rightarrow>
                     (if amount > budget_amount * 1.5 then
                        ((False, ''Your bid exceeds the maximum allowed amount (150% of budget)''), db)
                      else ((True, ''Bid placed successfully!''), inserted)))
              else ((True, ''Bid placed successfully!''), inserted))))"

text \<open>
  \<^verbatim>\<open>accept_bid\<close>: the bid row and the gig row are looked up; the status of neither is
  read. Then four statements run: the INSERT of the task and the three UPDATEs.
\<close>

definition accept_bid :: "nat \<Rightarrow> gig_db \<Rightarrow> (bool \<times> string) \<times> gig_db" where
  "accept_bid bid_id db =
     (case find (\<lambda>b. b_id b = bid_id) (bids db) of
        None \<Rightarrow> ((False, ''Bid not found''), db)
      | Some bid \<Rightarrow>
          (case find (\<lambda>g. g_id g = b_gig_id bid) (gigs db) of
             None \<Rightarrow> ((False, ''Gig not found''), db)
           | Some gig \<Rightarrow>
               (let gig_id = b_gig_id bid;
                    tasks1 = tasks db @
                      [\<lparr> t_id = next_id (map t_id (tasks db)), t_gig_id = gig_id,
                         t_bid_id = bid_id, t_client_id = g_user_id gig,
                         t_freelancer_id = b_bidder_id bid, t_amount = b_amount bid,
                         t_status = ''in_progress'', t_completed_at = None,
                         t_client_rating = None, t_client_review = None \<rparr>];
                    bids1 = map (\<lambda>b. if b_id b = bid_id then b\<lparr>b_status := ''accepted''\<rparr> else b)
                              (bids db);
                    bids2 = map (\<lambda>b. if b_gig_id b = gig_id \<and> b_id b \<noteq> bid_id
                                       then b\<lparr>b_status := ''rejected''\<rparr> else b) bids1;
                    gigs1 = map (\<lambda>g. if g_id g = gig_id then g\<lparr>g_status := ''in_progress''\<rparr> else g)
                              (gigs db)
                in ((True, ''Bid accepted! Task has started.''),
                    db\<lparr>tasks := tasks1, bids := bids2, gigs := gigs1\<rparr>))))"

section \<open>SkillSwap: \<^verbatim>\<open>complete_task\<close>\<close>

text \<open>\<^verbatim>\<open>rating or 5\<close>: \<^verbatim>\<open>None\<close> and \<^verbatim>\<open>0\<close> are falsy.\<close>

definition rating_or_5 :: "int option \<Rightarrow> int" where
  "rating_or_5 rating = (case rating of None \<Rightarrow> 5 | Some r \<Rightarrow> if r = 0 then 5 else r)"

text \<open>
  The UPDATE of the freelancer's row. All three right-hand sides are evaluated on the
  row as it was before the statement.
\<close>

definition update_stats :: "real \<Rightarrow> int \<Rightarrow> user_row \<Rightarrow> user_row" where
  "update_stats amount new_rating u =
     u\<lparr> u_completed_tasks := u_completed_tasks u + 1,
        u_total_earnings := u_total_earnings u + amount,
        u_rating := (u_rating u * real (u_completed_tasks u) + real_of_int new_rating) /
                    real (u_completed_tasks u + 1) \<rparr>"

fun insert_portfolio :: "portfolio_row list \<Rightarrow> portfolio_row list \<Rightarrow> portfolio_row list" where
  "insert_portfolio rows [] = rows"
| "insert_portfolio rows (r # rs) =
     insert_portfolio (rows @ [r\<lparr>p_id := next_id (map p_id rows)\<rparr>]) rs"

text \<open>The rows selected by the INSERT ... SELECT over tasks joined with gigs.\<close>

definition portfolio_rows :: "nat \<Rightarrow> nat \<Rightarrow> gig_db \<Rightarrow> portfolio_row list" where
  "portfolio_rows freelancer_id task_id db =
     [\<lparr> p_id = 0, p_user_id = freelancer_id, p_task_id = t_id t, p_title = g_title g,
        p_description = g_description g,
        p_skills_used = (case find (\<lambda>u. u_id u = freelancer_id) (users db) of
                           None \<Rightarrow> None | Some u \<Rightarrow> u_skills u),
        p_completion_date = t_completed_at t, p_client_feedback = t_client_review t,
        p_rating = t_client_rating t \<rparr>.
      t \<leftarrow> tasks db, g \<leftarrow> gigs db, t_gig_id t = g_id g \<and> t_id t = task_id]"

text \<open>The three statements under \<^verbatim>\<open>if status == 'pending_review' and user_id == client_id\<close>.\<close>

definition completion_effects :: "nat \<Rightarrow> task_row \<Rightarrow> int option \<Rightarrow> gig_db \<Rightarrow> gig_db" where
  "completion_effects task_id task rating db =
     (let db1 = db\<lparr>users := map (\<lambda>u. if u_id u = t_freelancer_id task
                                       then update_stats (t_amount task) (rating_or_5 rating) u
                                       else u) (users db)\<rparr>;
          db2 = db1\<lparr>portfolio := insert_portfolio (portfolio db1)
                                     (portfolio_rows (t_freelancer_id task) task_id db1)\<rparr>
      in (case find (\<lambda>t. t_id t = task_id) (tasks db2) of
            None \<Rightarrow> db2
          | Some t \<Rightarrow>
              db2\<lparr>gigs := map (\<lambda>g. if g_id g = t_gig_id t then g\<lparr>g_status := ''completed''\<rparr> else g)
                              (gigs db2)\<rparr>))"

text \<open>The UPDATE of the task row, chosen by the caller's role.\<close>

definition update_task :: "task_row \<Rightarrow> nat \<Rightarrow> int option \<Rightarrow> string option \<Rightarrow> nat \<Rightarrow> task_row \<Rightarrow> task_row" where
  "update_task task user_id rating review now t =
     (if user_id = t_client_id task then
        (case rating of
           Some r \<Rightarrow> t\<lparr>t_client_rating := Some r, t_client_review := review\<rparr>
         | None \<Rightarrow> t\<lparr>t_status := ''completed'', t_completed_at := Some now\<rparr>)
      else if user_id = t_freelancer_id task then t\<lparr>t_status := ''pending_review''\<rparr>
      else t)"

definition complete_task ::
  "nat \<Rightarrow> nat \<Rightarrow> int option \<Rightarrow> string option \<Rightarrow> gig_db \<Rightarrow> (bool \<times> string) \<times> gig_db" where
  "complete_task task_id user_id rating review db =
     (case find (\<lambda>t. t_id t = task_id) (tasks db) of
        None \<Rightarrow> ((False, ''Task not found''), db)
      | Some task \<Rightarrow>
          (if user_id \<notin> set [t_client_id task, t_freelancer_id task] then
             ((False, ''Unauthorized access''), db)
           else if user_id = t_client_id task \<and>
                   (case rating of None \<Rightarrow> False | Some r \<Rightarrow> r < 1 \<or> r > 5) then
             ((False, ''Rating must be between 1 and 5''), db)
           else
             (let db1 = db\<lparr>tasks := map (\<lambda>t. if t_id t = task_id
                                               then update_task task user_id rating review (clock db) t
                                               else t) (tasks db)\<rparr>;
                  db2 = (if t_status task = ''pending_review'' \<and> user_id = t_client_id task
                         then completion_effects task_id task rating db1 else db1)
              in ((True, ''Task updated successfully!''), db2))))"

section \<open>SkillSwap: reachable stores\<close>

text \<open>
  The stores that the application can produce from the empty database. The functions that
  write the tables \<^verbatim>\<open>gigs\<close>, \<^verbatim>\<open>bids\<close>, \<^verbatim>\<open>tasks\<close> and \<^verbatim>\<open>portfolio\<close> are
  the five above. Registration and the profile page write only \<^verbatim>\<open>users\<close>, so they are
  covered by an arbitrary change of that table; so is the passing of time.
\<close>

inductive reachable :: "gig_db \<Rightarrow> bool" where
  r_init: "reachable empty_db"
| r_users: "reachable db \<Longrightarrow> reachable (db\<lparr>users := us\<rparr>)"
| r_clock: "reachable db \<Longrightarrow> reachable (db\<lparr>clock := n\<rparr>)"
| r_create_gig: "reachable db \<Longrightarrow>
     reachable (snd (create_gig user_id title description category budget_type budget_amount
                       time_estimate urgency deadline location db))"
| r_update_gig_status: "reachable db \<Longrightarrow> reachable (snd (update_gig_status gig_id status db))"
| r_place_bid: "reachable db \<Longrightarrow>
     reachable (snd (place_bid gig_id bidder_id amount estimated_time proposal db))"
| r_accept_bid: "reachable db \<Longrightarrow> reachable (snd (accept_bid bid_id db))"
| r_complete_task: "reachable db \<Longrightarrow>
     reachable (snd (complete_task task_id user_id rating review db))"

text \<open>The accepted bids of one gig.\<close>

definition accepted_bids :: "nat \<Rightarrow> gig_db \<Rightarrow> bid_row list" where
  "accepted_bids gig_id db =
     filter (\<lambda>b. b_gig_id b = gig_id \<and> b_status b = ''accepted'') (bids db)"

definition tasks_of_bid :: "nat \<Rightarrow> gig_db \<Rightarrow> task_row list" where
  "tasks_of_bid bid_id db = filter (\<lambda>t. t_bid_id t = bid_id) (tasks db)"

section \<open>Example stores\<close>

text \<open>
  A ShareStuff store with four tool listings of three users and one completed
  transaction, and one whose first two listings are free of charge. The forms of the
  application refuse a price of 0, so the second store is an input of the functions that
  the pages do not write.
\<close>

definition demo_items :: item_db where
  "demo_items =
     \<lparr> i_users = [\<lparr>iu_id = 1, iu_username = ''ann'', iu_rating = Some 4\<rparr>,
                  \<lparr>iu_id = 2, iu_username = ''bob'', iu_rating = None\<rparr>,
                  \<lparr>iu_id = 3, iu_username = ''cy'', iu_rating = Some 5\<rparr>],
       items = [\<lparr>i_id = 1, i_user_id = 1, i_title = ''Drill'', i_price = 50, i_category = ''Tools'',
                  i_condition = ''Good'', i_location = Some ''Boston, MA'', i_tags = Some ''drill,cordless'',
                  i_available_for = ''both'', i_status = ''available'', i_created_at = 1\<rparr>,
                \<lparr>i_id = 2, i_user_id = 2, i_title = ''Drill B'', i_price = 55, i_category = ''Tools'',
                  i_condition = ''Good'', i_location = Some ''Boston, MA'', i_tags = Some ''drill,electric'',
                  i_available_for = ''rental'', i_status = ''available'', i_created_at = 2\<rparr>,
                \<lparr>i_id = 3, i_user_id = 3, i_title = ''Saw'', i_price = 10, i_category = ''Tools'',
                  i_condition = ''Good'', i_location = None, i_tags = None,
                  i_available_for = ''barter'', i_status = ''available'', i_created_at = 3\<rparr>,
                \<lparr>i_id = 4, i_user_id = 1, i_title = ''Own'', i_price = 50, i_category = ''Tools'',
                  i_condition = ''Good'', i_location = None, i_tags = None,
                  i_available_for = ''barter'', i_status = ''available'', i_created_at = 4\<rparr>],
       transactions = [\<lparr>tr_id = 1, tr_item_id = 2, tr_requested_by = 1, tr_type = ''rental'',
                         tr_status = ''completed'', tr_matched_item_id = None\<rparr>] \<rparr>"


text \<open>
  A SkillSwap store built by the application itself: one fixed-budget gig of 100 posted by
  user 1, with bids of users 2 and 3; then the first bid accepted; then the work
  declared done by the freelancer.
\<close>

definition gig_demo :: gig_db where
  "gig_demo =
     snd (place_bid 1 3 120 ''2 days'' ''Portfolio attached'' (
     snd (place_bid 1 2 90 ''1 day'' ''I can do it'' (
     snd (create_gig 1 ''Logo'' ''Design a logo'' ''Design'' ''fixed'' (Some 100)
            ''2 days'' ''High'' ''2025-01-01'' ''Campus''
       (empty_db\<lparr>users :=
          [\<lparr>u_id = 1, u_username = ''cara'', u_skills = None, u_rating = 0,
             u_completed_tasks = 0, u_total_earnings = 0\<rparr>,
           \<lparr>u_id = 2, u_username = ''fred'', u_skills = Some ''drawing'', u_rating = 4,
             u_completed_tasks = 1, u_total_earnings = 50\<rparr>,
           \<lparr>u_id = 3, u_username = ''gil'', u_skills = None, u_rating = 0,
             u_completed_tasks = 0, u_total_earnings = 0\<rparr>]\<rparr>))))))"

definition accepted_demo :: gig_db where
  "accepted_demo = snd (accept_bid 1 gig_demo)"

definition review_demo :: gig_db where
  "review_demo = snd (complete_task 1 2 None None accepted_demo)"

text \<open>Then the client submits the review with rating 5, once and a second time.\<close>

definition reviewed_demo :: gig_db where
  "reviewed_demo = snd (complete_task 1 1 (Some 5) (Some ''ok'') review_demo)"

definition reviewed_twice_demo :: gig_db where
  "reviewed_twice_demo = snd (complete_task 1 1 (Some 5) (Some ''ok'') reviewed_demo)"

section \<open>Properties of the match scorer\<close>

lemma score_all_acc:
  "score_all item cs acc = Inr ms \<Longrightarrow>
   \<exists>ms'. ms = acc @ ms' \<and>
     subseq (map m_id ms') (map (\<lambda>c. i_id (fst c)) cs) \<and>
     (\<forall>m\<in>set ms'. \<exists>c\<in>set cs. \<exists>sc. candidate_score item (fst c) = Inr sc \<and> 30 \<le> sc \<and>
        m = make_match item c sc)"
proof (induction cs arbitrary: acc)
  case Nil
  then show ?case by simp
next
  case (Cons c cs)
  from Cons.prems obtain sc where sc: "candidate_score item (fst c) = Inr sc"
    by (cases "candidate_score item (fst c)") auto
  show ?case
  proof (cases "30 \<le> sc")
    case True
    with Cons.prems sc have "score_all item cs (acc @ [make_match item c sc]) = Inr ms" by simp
    from Cons.IH [OF this] obtain ms' where
      ms: "ms = (acc @ [make_match item c sc]) @ ms'" and
      sub: "subseq (map m_id ms') (map (\<lambda>c. i_id (fst c)) cs)" and
      el: "\<forall>m\<in>set ms'. \<exists>c\<in>set cs. \<exists>sc. candidate_score item (fst c) = Inr sc \<and> 30 \<le> sc \<and>
             m = make_match item c sc"
      by blast
    have id: "m_id (make_match item c sc) = i_id (fst c)" by (simp add: make_match_def)
    show ?thesis
    proof (intro exI [of _ "make_match item c sc # ms'"] conjI)
      show "ms = acc @ make_match item c sc # ms'" using ms by simp
      show "subseq (map m_id (make_match item c sc # ms')) (map (\<lambda>c. i_id (fst c)) (c # cs))"
        using sub id by simp
      show "\<forall>m\<in>set (make_match item c sc # ms'). \<exists>c\<in>set (c # cs). \<exists>sc.
              candidate_score item (fst c) = Inr sc \<and> 30 \<le> sc \<and> m = make_match item c sc"
        using el sc True by auto
    qed
  next
    case False
    with Cons.prems sc have "score_all item cs acc = Inr ms" by simp
    from Cons.IH [OF this] obtain ms' where
      ms: "ms = acc @ ms'" and
      sub: "subseq (map m_id ms') (map (\<lambda>c. i_id (fst c)) cs)" and
      el: "\<forall>m\<in>set ms'. \<exists>c\<in>set cs. \<exists>sc. candidate_score item (fst c) = Inr sc \<and> 30 \<le> sc \<and>
             m = make_match item c sc"
      by blast
    show ?thesis
    proof (intro exI [of _ ms'] conjI)
      show "ms = acc @ ms'" by (rule ms)
      show "subseq (map m_id ms') (map (\<lambda>c. i_id (fst c)) (c # cs))"
        using sub by (simp add: list_emb_Cons)
      show "\<forall>m\<in>set ms'. \<exists>c\<in>set (c # cs). \<exists>sc.
              candidate_score item (fst c) = Inr sc \<and> 30 \<le> sc \<and> m = make_match item c sc"
        using el by auto
    qed
  qed
qed

lemma potential_items_mem:
  "c \<in> set (potential_items db owner cur) \<Longrightarrow>
   fst c \<in> set (items db) \<and> i_user_id (fst c) \<noteq> owner \<and> i_user_id (fst c) \<noteq> cur \<and>
   i_status (fst c) = ''available''"
  by (auto simp: potential_items_def)

lemma set_sorted_reverse: "set (sorted_reverse k xs) = set xs"
  by (simp add: sorted_reverse_def)

lemma sorted_sorted_reverse: "sorted_wrt (\<lambda>a b. k a \<ge> k b) (sorted_reverse k xs)"
proof -
  have "sorted (map k (sort_key k (rev xs)))" by (rule sorted_sort_key)
  then have "sorted_wrt (\<lambda>a b. k a \<le> k b) (sort_key k (rev xs))"
    by (simp add: sorted_map)
  then have "sorted_wrt (\<lambda>a b. k b \<le> k a) (rev (sort_key k (rev xs)))"
    by (simp add: sorted_wrt_rev)
  then show ?thesis by (simp add: sorted_reverse_def)
qed

lemma stable_sorted_reverse:
  "filter (\<lambda>y. k y = v) (sorted_reverse k xs) = filter (\<lambda>y. k y = v) xs"
proof -
  have "filter (\<lambda>y. k y = v) (sorted_reverse k xs) = rev (filter (\<lambda>y. k y = v) (sort_key k (rev xs)))"
    by (simp add: sorted_reverse_def rev_filter)
  also have "\<dots> = rev (filter (\<lambda>y. k y = v) (rev xs))" by (simp only: sort_key_stable)
  also have "\<dots> = filter (\<lambda>y. k y = v) xs" by (simp add: rev_filter)
  finally show ?thesis .
qed

lemma distinct_key_eq:
  "distinct (map f xs) \<Longrightarrow> x \<in> set xs \<Longrightarrow> y \<in> set xs \<Longrightarrow> f x = f y \<Longrightarrow> x = y"
  by (meson distinct_map inj_on_eq_iff)

lemma find_map_update:
  "(\<And>x. key (f x) = key x) \<Longrightarrow>
   find (\<lambda>x. key x = k) (map (\<lambda>x. if key x = k then f x else x) xs) =
   map_option f (find (\<lambda>x. key x = k) xs)"
  by (induction xs) auto

lemmas scorer_defs = find_matches_def potential_items_def sorted_reverse_def candidate_score_def
     price_diff_def category_points_def price_points_def location_points_def tag_points_def first_token_def
     tag_set_def truthy_def text_of_def make_match_def strip_def lower_def lower_char_def is_space_def trans_type_def

text \<open>
  Claim C5. For a store whose item ids are a primary key, the result of
  \<^verbatim>\<open>find_matches\<close> has at most 5 entries, is sorted by descending score, and every
  entry has a score from 30 to 100. When the source listing exists: for each score, the
  entries with that score appear in the order of the candidate pool (ties are stable); no
  entry is a listing of the source's owner or of the requesting user or a listing that is
  not available; and no candidate whose score is below 30 is returned.
\<close>

theorem find_matches_output:
  assumes pk: "distinct (map i_id (items db))"
  shows "length (find_matches item_id cur db) \<le> 5 \<and>
    sorted_wrt (\<lambda>a b. m_match_score a \<ge> m_match_score b) (find_matches item_id cur db) \<and>
    (\<forall>m\<in>set (find_matches item_id cur db). 30 \<le> m_match_score m \<and> m_match_score m \<le> 100) \<and>
    (\<forall>src. find (\<lambda>i. i_id i = item_id) (items db) = Some src \<longrightarrow>
       (\<forall>k. subseq (map m_id (filter (\<lambda>m. m_match_score m = k) (find_matches item_id cur db)))
                   (map (\<lambda>c. i_id (fst c)) (potential_items db (i_user_id src) cur))) \<and>
       (\<forall>i\<in>set (items db).
           i_user_id i = i_user_id src \<or> i_user_id i = cur \<or> i_status i \<noteq> ''available'' \<longrightarrow>
           i_id i \<notin> m_id ` set (find_matches item_id cur db)) \<and>
       (\<forall>c\<in>set (potential_items db (i_user_id src) cur). \<forall>sc.
           candidate_score src (fst c) = Inr sc \<and> sc < 30 \<longrightarrow>
           i_id (fst c) \<notin> m_id ` set (find_matches item_id cur db)))"
proof (cases "find (\<lambda>i. i_id i = item_id) (items db)")
  case None
  then show ?thesis by (simp add: find_matches_def)
next
  case (Some src)
  let ?pool = "potential_items db (i_user_id src) cur"
  show ?thesis
  proof (cases "score_all src ?pool []")
    case (Inl e)
    with Some show ?thesis by (simp add: find_matches_def)
  next
    case (Inr ms)
    let ?R = "take 5 (sorted_reverse m_match_score ms)"
    have R: "find_matches item_id cur db = ?R"
      using Some Inr by (simp add: find_matches_def)
    from score_all_acc [OF Inr] have
      sub: "subseq (map m_id ms) (map (\<lambda>c. i_id (fst c)) ?pool)" and
      el: "\<forall>m\<in>set ms. \<exists>c\<in>set ?pool. \<exists>sc. candidate_score src (fst c) = Inr sc \<and> 30 \<le> sc \<and>
             m = make_match src c sc"
      by auto
    have Rsub: "set ?R \<subseteq> set ms"
      using set_take_subset [of 5 "sorted_reverse m_match_score ms"]
      by (simp add: set_sorted_reverse)
    have len: "length ?R \<le> 5" by simp
    have srt: "sorted_wrt (\<lambda>a b. m_match_score a \<ge> m_match_score b) ?R"
      by (rule sorted_wrt_take) (rule sorted_sorted_reverse)
    have rng: "\<forall>m\<in>set ?R. 30 \<le> m_match_score m \<and> m_match_score m \<le> 100"
    proof
      fix m assume "m \<in> set ?R"
      with Rsub el obtain c sc where "30 \<le> sc" "m = make_match src c sc" by blast
      then show "30 \<le> m_match_score m \<and> m_match_score m \<le> 100"
        by (simp add: make_match_def)
    qed
    have stab: "subseq (map m_id (filter (\<lambda>m. m_match_score m = k) ?R))
                  (map (\<lambda>c. i_id (fst c)) ?pool)" for k
    proof -
      have "prefix (filter (\<lambda>m. m_match_score m = k) ?R)
              (filter (\<lambda>m. m_match_score m = k) (sorted_reverse m_match_score ms))"
        by (rule filter_mono_prefix) (rule take_is_prefix)
      then have "prefix (filter (\<lambda>m. m_match_score m = k) ?R)
              (filter (\<lambda>m. m_match_score m = k) ms)"
        by (simp only: stable_sorted_reverse)
      then have "subseq (filter (\<lambda>m. m_match_score m = k) ?R) (filter (\<lambda>m. m_match_score m = k) ms)"
        by (rule prefix_imp_subseq)
      then have "subseq (filter (\<lambda>m. m_match_score m = k) ?R) ms"
        by (rule subseq_order.trans) simp
      then have "subseq (map m_id (filter (\<lambda>m. m_match_score m = k) ?R)) (map m_id ms)"
        by (rule subseq_map)
      then show ?thesis using sub by (rule subseq_order.trans)
    qed
    have origin: "\<exists>c\<in>set ?pool. \<exists>sc. candidate_score src (fst c) = Inr sc \<and> 30 \<le> sc \<and>
                    m_id m = i_id (fst c)" if "m \<in> set ?R" for m
    proof -
      from that Rsub el obtain c sc where
        "c \<in> set ?pool" "candidate_score src (fst c) = Inr sc" "30 \<le> sc" "m = make_match src c sc"
        by blast
      then show ?thesis by (auto simp: make_match_def)
    qed
    have excl: "\<forall>i\<in>set (items db).
           i_user_id i = i_user_id src \<or> i_user_id i = cur \<or> i_status i \<noteq> ''available'' \<longrightarrow>
           i_id i \<notin> m_id ` set ?R"
    proof (intro ballI impI notI)
      fix i assume i: "i \<in> set (items db)"
        and bad: "i_user_id i = i_user_id src \<or> i_user_id i = cur \<or> i_status i \<noteq> ''available''"
        and "i_id i \<in> m_id ` set ?R"
      then obtain m where "m \<in> set ?R" "m_id m = i_id i" by auto
      with origin obtain c where c: "c \<in> set ?pool" "i_id (fst c) = i_id i" by force
      from potential_items_mem [OF c(1)] have
        good: "fst c \<in> set (items db)" "i_user_id (fst c) \<noteq> i_user_id src"
          "i_user_id (fst c) \<noteq> cur" "i_status (fst c) = ''available''"
        by auto
      from distinct_key_eq [OF pk good(1) i c(2)] have "fst c = i" .
      with good bad show False by auto
    qed
    have low: "\<forall>c\<in>set ?pool. \<forall>sc. candidate_score src (fst c) = Inr sc \<and> sc < 30 \<longrightarrow>
           i_id (fst c) \<notin> m_id ` set ?R"
    proof (intro ballI allI impI notI)
      fix c sc assume c: "c \<in> set ?pool"
        and sc: "candidate_score src (fst c) = Inr sc \<and> sc < 30"
        and "i_id (fst c) \<in> m_id ` set ?R"
      then obtain m where "m \<in> set ?R" "m_id m = i_id (fst c)" by auto
      with origin obtain c' sc' where c': "c' \<in> set ?pool" "candidate_score src (fst c') = Inr sc'"
        "30 \<le> sc'" "i_id (fst c') = i_id (fst c)" by force
      from potential_items_mem [OF c] potential_items_mem [OF c'(1)]
      have "fst c \<in> set (items db)" "fst c' \<in> set (items db)" by auto
      from distinct_key_eq [OF pk this(2) this(1) c'(4)] have "fst c' = fst c" .
      with c' sc show False by simp
    qed
    from len srt rng stab excl low Some show ?thesis
      unfolding R by simp
  qed
qed

text \<open>
  The example store satisfies the hypothesis; its two matches are the listings 2 and 3,
  with the scores 95 and 40.
\<close>

theorem find_matches_output_witness:
  "distinct (map i_id (items demo_items)) \<and>
   length (find_matches 1 1 demo_items) \<le> 5 \<and>
   map m_id (find_matches 1 1 demo_items) = [2, 3] \<and>
   map m_match_score (find_matches 1 1 demo_items) = [95, 40]"
proof -
  have pk: "distinct (map i_id (items demo_items))" by (simp add: demo_items_def)
  from find_matches_output [OF pk, of 1 1]
  have "length (find_matches 1 1 demo_items) \<le> 5" by blast
  moreover have "map m_id (find_matches 1 1 demo_items) = [2, 3]"
    by (simp add: demo_items_def scorer_defs)
  moreover have "map m_match_score (find_matches 1 1 demo_items) = [95, 40]"
    by (simp add: demo_items_def scorer_defs)
  ultimately show ?thesis using pk by simp
qed

text \<open>
  Claim C10. When no item row has the given id, \<^verbatim>\<open>find_matches\<close> returns the empty
  list, whoever the requesting user is.
\<close>

theorem find_matches_missing_item:
  "item_id \<notin> i_id ` set (items db) \<Longrightarrow> find_matches item_id cur db = []"
proof -
  assume "item_id \<notin> i_id ` set (items db)"
  then have "find (\<lambda>i. i_id i = item_id) (items db) = None"
    by (auto simp: find_None_iff)
  then show ?thesis by (simp add: find_matches_def)
qed

theorem find_matches_missing_item_witness:
  "9 \<notin> i_id ` set (items demo_items) \<and> find_matches 9 1 demo_items = []"
proof -
  have h: "9 \<notin> i_id ` set (items demo_items)" by (simp add: demo_items_def)
  from find_matches_missing_item [OF h, of 1] h show ?thesis by simp
qed








section \<open>Properties of the item transaction lifecycle\<close>

text \<open>
  Claim C3, as the code has it. \<^verbatim>\<open>update_transaction_status\<close> checks no transition:
  for every transaction id and every requested status it returns \<^verbatim>\<open>True\<close>, and the
  transaction with that id, when there is one, carries the requested status afterwards.
\<close>

theorem update_transaction_status_unchecked:
  "fst (update_transaction_status tid status db) = True \<and>
   find (\<lambda>t. tr_id t = tid) (transactions (snd (update_transaction_status tid status db))) =
     map_option (\<lambda>t. t\<lparr>tr_status := status\<rparr>) (find (\<lambda>t. tr_id t = tid) (transactions db))"
  by (simp add: update_transaction_status_def Let_def find_map_update)

text \<open>
  The transition from \<^verbatim>\<open>completed\<close> back to \<^verbatim>\<open>pending\<close> is none of the three
  legal ones, yet the call succeeds and the status is changed.
\<close>

theorem update_transaction_status_counterexample:
  "map tr_status (transactions demo_items) = [''completed''] \<and>
   fst (update_transaction_status 1 ''pending'' demo_items) = True \<and>
   map tr_status (transactions (snd (update_transaction_status 1 ''pending'' demo_items))) = [''pending'']"
  by (simp add: update_transaction_status_def demo_items_def)

section \<open>Properties of bids and their acceptance\<close>

lemma foldr_max_ge: "x \<in> set ids \<Longrightarrow> x \<le> foldr max ids (0::nat)"
  by (induction ids) auto

lemma next_id_fresh: "next_id ids \<notin> set ids"
proof
  assume "next_id ids \<in> set ids"
  then have "next_id ids \<le> foldr max ids 0" by (rule foldr_max_ge)
  then show False by (simp add: next_id_def)
qed

lemma find_Some_mem: "find P xs = Some x \<Longrightarrow> x \<in> set xs \<and> P x"
  by (induction xs) (auto split: if_splits)

lemma filter_key_single:
  "distinct (map key xs) \<Longrightarrow> find (\<lambda>x. key x = k) xs = Some x \<Longrightarrow>
   filter (\<lambda>x. key x = k) xs = [x]"
proof (induction xs)
  case Nil
  then show ?case by simp
next
  case (Cons a xs)
  show ?case
  proof (cases "key a = k")
    case True
    with Cons.prems have "x = a" and "k \<notin> key ` set xs" by auto
    then have "filter (\<lambda>x. key x = k) xs = []" by (auto simp: filter_empty_conv)
    with True \<open>x = a\<close> show ?thesis by simp
  next
    case False
    with Cons show ?thesis by simp
  qed
qed

lemma create_gig_bids:
  "bids (snd (create_gig user_id title description category budget_type budget_amount
                time_estimate urgency deadline location db)) = bids db"
  by (simp add: create_gig_def)

lemma update_gig_status_bids: "bids (snd (update_gig_status gig_id status db)) = bids db"
  by (simp add: update_gig_status_def)

lemma completion_effects_bids: "bids (completion_effects task_id task rating db) = bids db"
  by (simp add: completion_effects_def Let_def split: option.splits)

lemma complete_task_bids: "bids (snd (complete_task task_id user_id rating review db)) = bids db"
  by (simp add: complete_task_def Let_def completion_effects_bids split: option.splits)

lemma place_bid_bids:
  "bids (snd (place_bid gig_id bidder_id amount estimated_time proposal db)) = bids db \<or>
   bids (snd (place_bid gig_id bidder_id amount estimated_time proposal db)) =
     bids db @ [\<lparr> b_id = next_id (map b_id (bids db)), b_gig_id = gig_id,
                  b_bidder_id = bidder_id, b_amount = amount,
                  b_estimated_time = estimated_time, b_proposal = proposal,
                  b_status = ''pending'' \<rparr>]"
  by (simp add: place_bid_def Let_def split: option.splits)

lemma accept_bid_success:
  assumes "find (\<lambda>b. b_id b = bid_id) (bids db) = Some bid"
    and "find (\<lambda>g. g_id g = b_gig_id bid) (gigs db) = Some gig"
  shows "fst (accept_bid bid_id db) = (True, ''Bid accepted! Task has started.'')"
    and "bids (snd (accept_bid bid_id db)) =
      map (\<lambda>b. if b_id b = bid_id then b\<lparr>b_status := ''accepted''\<rparr>
                else if b_gig_id b = b_gig_id bid then b\<lparr>b_status := ''rejected''\<rparr> else b)
        (bids db)"
    and "gigs (snd (accept_bid bid_id db)) =
      map (\<lambda>g. if g_id g = b_gig_id bid then g\<lparr>g_status := ''in_progress''\<rparr> else g) (gigs db)"
    and "tasks (snd (accept_bid bid_id db)) = tasks db @
      [\<lparr> t_id = next_id (map t_id (tasks db)), t_gig_id = b_gig_id bid,
         t_bid_id = bid_id, t_client_id = g_user_id gig,
         t_freelancer_id = b_bidder_id bid, t_amount = b_amount bid,
         t_status = ''in_progress'', t_completed_at = None,
         t_client_rating = None, t_client_review = None \<rparr>]"
  using assms by (simp_all add: accept_bid_def Let_def)

lemma accept_bid_failure:
  "fst (fst (accept_bid bid_id db)) = False \<Longrightarrow> snd (accept_bid bid_id db) = db"
  by (simp add: accept_bid_def Let_def split: option.splits)

lemma accept_bid_cases:
  "(\<exists>bid gig. find (\<lambda>b. b_id b = bid_id) (bids db) = Some bid \<and>
       find (\<lambda>g. g_id g = b_gig_id bid) (gigs db) = Some gig) \<or>
   (fst (fst (accept_bid bid_id db)) = False \<and> snd (accept_bid bid_id db) = db)"
  by (simp add: accept_bid_def Let_def split: option.splits)

lemma accepted_bids_after_accept_same:
  assumes pk: "distinct (map b_id (bids db))"
    and bid: "find (\<lambda>b. b_id b = bid_id) (bids db) = Some bid"
    and gig: "find (\<lambda>g. g_id g = b_gig_id bid) (gigs db) = Some gig"
  shows "accepted_bids (b_gig_id bid) (snd (accept_bid bid_id db)) = [bid\<lparr>b_status := ''accepted''\<rparr>]"
proof -
  let ?upd = "\<lambda>b. if b_id b = bid_id then b\<lparr>b_status := ''accepted''\<rparr>
                else if b_gig_id b = b_gig_id bid then b\<lparr>b_status := ''rejected''\<rparr> else b"
  let ?P = "\<lambda>b. b_gig_id b = b_gig_id bid \<and> b_status b = ''accepted''"
  have mem: "bid \<in> set (bids db)" "b_id bid = bid_id" using find_Some_mem [OF bid] by auto
  have eq: "filter (?P \<circ> ?upd) (bids db) = filter (\<lambda>b. b_id b = bid_id) (bids db)"
  proof (rule filter_cong [OF refl])
    fix b assume b: "b \<in> set (bids db)"
    show "(?P \<circ> ?upd) b = (b_id b = bid_id)"
    proof (cases "b_id b = bid_id")
      case True
      with mem b pk have "b = bid" by (auto dest: distinct_key_eq [OF pk])
      with True show ?thesis by simp
    next
      case False
      then show ?thesis by simp
    qed
  qed
  have "accepted_bids (b_gig_id bid) (snd (accept_bid bid_id db)) = filter ?P (map ?upd (bids db))"
    by (simp add: accepted_bids_def accept_bid_success(2) [OF bid gig])
  also have "\<dots> = map ?upd (filter (?P \<circ> ?upd) (bids db))" by (simp add: filter_map)
  also have "\<dots> = map ?upd [bid]" by (simp only: eq filter_key_single [OF pk bid])
  also have "\<dots> = [bid\<lparr>b_status := ''accepted''\<rparr>]" using mem by simp
  finally show ?thesis .
qed

lemma accepted_bids_after_accept_other:
  assumes pk: "distinct (map b_id (bids db))"
    and bid: "find (\<lambda>b. b_id b = bid_id) (bids db) = Some bid"
    and gig: "find (\<lambda>g. g_id g = b_gig_id bid) (gigs db) = Some gig"
    and other: "g \<noteq> b_gig_id bid"
  shows "accepted_bids g (snd (accept_bid bid_id db)) = accepted_bids g db"
proof -
  let ?upd = "\<lambda>b. if b_id b = bid_id then b\<lparr>b_status := ''accepted''\<rparr>
                else if b_gig_id b = b_gig_id bid then b\<lparr>b_status := ''rejected''\<rparr> else b"
  let ?P = "\<lambda>b. b_gig_id b = g \<and> b_status b = ''accepted''"
  have mem: "bid \<in> set (bids db)" "b_id bid = bid_id" using find_Some_mem [OF bid] by auto
  have same: "?P b \<Longrightarrow> ?upd b = b" if "b \<in> set (bids db)" for b
  proof -
    assume P: "?P b"
    have "b_id b \<noteq> bid_id"
    proof
      assume "b_id b = bid_id"
      with mem that have "b = bid" by (auto dest: distinct_key_eq [OF pk])
      with P other show False by simp
    qed
    with P other show "?upd b = b" by simp
  qed
  have eq: "filter (?P \<circ> ?upd) (bids db) = filter ?P (bids db)"
  proof (rule filter_cong [OF refl])
    fix b assume b: "b \<in> set (bids db)"
    show "(?P \<circ> ?upd) b = ?P b"
    proof (cases "b_id b = bid_id")
      case True
      with mem b have "b = bid" by (auto dest: distinct_key_eq [OF pk])
      with True other show ?thesis by auto
    next
      case False
      with other show ?thesis by auto
    qed
  qed
  have "accepted_bids g (snd (accept_bid bid_id db)) = filter ?P (map ?upd (bids db))"
    by (simp add: accepted_bids_def accept_bid_success(2) [OF bid gig])
  also have "\<dots> = map ?upd (filter (?P \<circ> ?upd) (bids db))" by (simp add: filter_map)
  also have "\<dots> = map ?upd (filter ?P (bids db))" by (simp only: eq)
  also have "\<dots> = filter ?P (bids db)"
    by (rule map_idI) (use same in auto)
  finally show ?thesis by (simp add: accepted_bids_def)
qed

lemma accept_bid_ids: "map b_id (bids (snd (accept_bid bid_id db))) = map b_id (bids db)"
  by (simp add: accept_bid_def Let_def comp_def split: option.splits)

lemma accept_bid_at_most_one:
  assumes pk: "distinct (map b_id (bids db))"
    and inv: "\<And>g. length (accepted_bids g db) \<le> 1"
  shows "length (accepted_bids g (snd (accept_bid bid_id db))) \<le> 1"
proof -
  from accept_bid_cases [of bid_id db] show ?thesis
  proof
    assume "\<exists>bid gig. find (\<lambda>b. b_id b = bid_id) (bids db) = Some bid \<and>
       find (\<lambda>g. g_id g = b_gig_id bid) (gigs db) = Some gig"
    then obtain bid gig where bid: "find (\<lambda>b. b_id b = bid_id) (bids db) = Some bid"
      and gig: "find (\<lambda>g. g_id g = b_gig_id bid) (gigs db) = Some gig" by blast
    show ?thesis
    proof (cases "g = b_gig_id bid")
      case True
      then show ?thesis by (simp add: accepted_bids_after_accept_same [OF pk bid gig])
    next
      case False
      then show ?thesis using inv [of g]
        by (simp add: accepted_bids_after_accept_other [OF pk bid gig])
    qed
  next
    assume "fst (fst (accept_bid bid_id db)) = False \<and> snd (accept_bid bid_id db) = db"
    then show ?thesis using inv [of g] by simp
  qed
qed

lemma reachable_bids:
  "reachable db \<Longrightarrow> distinct (map b_id (bids db)) \<and> (\<forall>g. length (accepted_bids g db) \<le> 1)"
proof (induction rule: reachable.induct)
  case r_init
  then show ?case by (simp add: empty_db_def accepted_bids_def)
next
  case (r_users db us)
  then show ?case by (simp add: accepted_bids_def)
next
  case (r_clock db n)
  then show ?case by (simp add: accepted_bids_def)
next
  case (r_create_gig db user_id title description category budget_type budget_amount
      time_estimate urgency deadline location)
  then show ?case by (simp add: accepted_bids_def create_gig_bids)
next
  case (r_update_gig_status db gig_id status)
  then show ?case by (simp add: accepted_bids_def update_gig_status_bids)
next
  case (r_place_bid db gig_id bidder_id amount estimated_time proposal)
  from place_bid_bids [of gig_id bidder_id amount estimated_time proposal db] show ?case
  proof
    assume "bids (snd (place_bid gig_id bidder_id amount estimated_time proposal db)) = bids db"
    with r_place_bid.IH show ?thesis by (simp add: accepted_bids_def)
  next
    assume "bids (snd (place_bid gig_id bidder_id amount estimated_time proposal db)) =
     bids db @ [\<lparr> b_id = next_id (map b_id (bids db)), b_gig_id = gig_id,
                  b_bidder_id = bidder_id, b_amount = amount,
                  b_estimated_time = estimated_time, b_proposal = proposal,
                  b_status = ''pending'' \<rparr>]"
    with r_place_bid.IH next_id_fresh [of "map b_id (bids db)"] show ?thesis
      by (simp add: accepted_bids_def)
  qed
next
  case (r_accept_bid db bid_id)
  then have pk: "distinct (map b_id (bids db))"
    and inv: "\<And>g. length (accepted_bids g db) \<le> 1" by auto
  from pk have "distinct (map b_id (bids (snd (accept_bid bid_id db))))"
    by (simp only: accept_bid_ids)
  with accept_bid_at_most_one [OF pk inv] show ?case by blast
next
  case (r_complete_task db task_id user_id rating review)
  then show ?case by (simp add: accepted_bids_def complete_task_bids)
qed

lemmas gig_defs = empty_db_def create_gig_def place_bid_def accept_bid_def complete_task_def
  completion_effects_def update_task_def update_stats_def portfolio_rows_def rating_or_5_def
  next_id_def Let_def

lemma gig_demo_eval: "gig_demo =
  \<lparr>users =
     [\<lparr>u_id = 1, u_username = ''cara'', u_skills = None, u_rating = 0, u_completed_tasks = 0,
         u_total_earnings = 0\<rparr>,
      \<lparr>u_id = 2, u_username = ''fred'', u_skills = Some ''drawing'', u_rating = 4,
         u_completed_tasks = 1, u_total_earnings = 50\<rparr>,
      \<lparr>u_id = 3, u_username = ''gil'', u_skills = None, u_rating = 0, u_completed_tasks = 0,
         u_total_earnings = 0\<rparr>],
   gigs =
     [\<lparr>g_id = 1, g_user_id = 1, g_title = ''Logo'', g_description = ''Design a logo'',
         g_category = ''Design'', g_budget_type = ''fixed'', g_budget_amount = Some 100,
         g_time_estimate = ''2 days'', g_urgency = ''High'', g_status = ''open'',
         g_deadline = ''2025-01-01'', g_location = ''Campus''\<rparr>],
   bids =
     [\<lparr>b_id = 1, b_gig_id = 1, b_bidder_id = 2, b_amount = 90, b_estimated_time = ''1 day'',
         b_proposal = ''I can do it'', b_status = ''pending''\<rparr>,
      \<lparr>b_id = 2, b_gig_id = 1, b_bidder_id = 3, b_amount = 120, b_estimated_time = ''2 days'',
         b_proposal = ''Portfolio attached'', b_status = ''pending''\<rparr>],
   tasks = [], portfolio = [], clock = 0\<rparr>"
  by (simp add: gig_demo_def gig_defs)

lemma reachable_gig_demo: "reachable gig_demo"
  unfolding gig_demo_def by (rule r_place_bid r_create_gig r_users r_init)+

text \<open>
  Claim C1, as the code has it. In every reachable store at most one bid per gig is
  accepted. When \<^verbatim>\<open>accept_bid\<close> succeeds on a reachable store for bid B of gig G, then
  afterwards B is the one accepted bid of G, every other bid of G, pending before or not,
  is rejected, G exists and is in progress, and the number of tasks that reference B is
  one more than before the call.
\<close>

theorem accept_bid_outcome:
  assumes reach: "reachable db"
  shows "(\<forall>g. length (accepted_bids g db) \<le> 1) \<and>
    (fst (fst (accept_bid bid_id db)) = True \<longrightarrow>
      (\<exists>bid. find (\<lambda>b. b_id b = bid_id) (bids db) = Some bid \<and>
         accepted_bids (b_gig_id bid) (snd (accept_bid bid_id db)) = [bid\<lparr>b_status := ''accepted''\<rparr>] \<and>
         (\<forall>b\<in>set (bids db). b_gig_id b = b_gig_id bid \<and> b_id b \<noteq> bid_id \<longrightarrow>
            b\<lparr>b_status := ''rejected''\<rparr> \<in> set (bids (snd (accept_bid bid_id db)))) \<and>
         (\<forall>b\<in>set (bids (snd (accept_bid bid_id db))).
            b_gig_id b = b_gig_id bid \<and> b_id b \<noteq> bid_id \<longrightarrow> b_status b = ''rejected'') \<and>
         (\<exists>g\<in>set (gigs (snd (accept_bid bid_id db))). g_id g = b_gig_id bid) \<and>
         (\<forall>g\<in>set (gigs (snd (accept_bid bid_id db))).
            g_id g = b_gig_id bid \<longrightarrow> g_status g = ''in_progress'') \<and>
         length (tasks_of_bid bid_id (snd (accept_bid bid_id db))) =
           Suc (length (tasks_of_bid bid_id db))))"
proof (intro conjI impI)
  show "\<forall>g. length (accepted_bids g db) \<le> 1" using reachable_bids [OF reach] by simp
next
  assume ok: "fst (fst (accept_bid bid_id db)) = True"
  from reachable_bids [OF reach] have pk: "distinct (map b_id (bids db))" by simp
  from ok accept_bid_cases [of bid_id db] obtain bid gig where
    bid: "find (\<lambda>b. b_id b = bid_id) (bids db) = Some bid" and
    gig: "find (\<lambda>g. g_id g = b_gig_id bid) (gigs db) = Some gig" by auto
  note post = accept_bid_success [OF bid gig]
  have g_mem: "gig \<in> set (gigs db)" "g_id gig = b_gig_id bid"
    using find_Some_mem [OF gig] by auto
  show "\<exists>bid. find (\<lambda>b. b_id b = bid_id) (bids db) = Some bid \<and>
         accepted_bids (b_gig_id bid) (snd (accept_bid bid_id db)) = [bid\<lparr>b_status := ''accepted''\<rparr>] \<and>
         (\<forall>b\<in>set (bids db). b_gig_id b = b_gig_id bid \<and> b_id b \<noteq> bid_id \<longrightarrow>
            b\<lparr>b_status := ''rejected''\<rparr> \<in> set (bids (snd (accept_bid bid_id db)))) \<and>
         (\<forall>b\<in>set (bids (snd (accept_bid bid_id db))).
            b_gig_id b = b_gig_id bid \<and> b_id b \<noteq> bid_id \<longrightarrow> b_status b = ''rejected'') \<and>
         (\<exists>g\<in>set (gigs (snd (accept_bid bid_id db))). g_id g = b_gig_id bid) \<and>
         (\<forall>g\<in>set (gigs (snd (accept_bid bid_id db))).
            g_id g = b_gig_id bid \<longrightarrow> g_status g = ''in_progress'') \<and>
         length (tasks_of_bid bid_id (snd (accept_bid bid_id db))) =
           Suc (length (tasks_of_bid bid_id db))"
  proof (intro exI [of _ bid] conjI)
    show "find (\<lambda>b. b_id b = bid_id) (bids db) = Some bid" by (rule bid)
    show "accepted_bids (b_gig_id bid) (snd (accept_bid bid_id db)) = [bid\<lparr>b_status := ''accepted''\<rparr>]"
      by (rule accepted_bids_after_accept_same [OF pk bid gig])
    show "\<forall>b\<in>set (bids db). b_gig_id b = b_gig_id bid \<and> b_id b \<noteq> bid_id \<longrightarrow>
            b\<lparr>b_status := ''rejected''\<rparr> \<in> set (bids (snd (accept_bid bid_id db)))"
      unfolding post(2) by (auto simp: image_iff intro!: bexI)
    show "\<forall>b\<in>set (bids (snd (accept_bid bid_id db))).
            b_gig_id b = b_gig_id bid \<and> b_id b \<noteq> bid_id \<longrightarrow> b_status b = ''rejected''"
      unfolding post(2) by auto
    show "\<exists>g\<in>set (gigs (snd (accept_bid bid_id db))). g_id g = b_gig_id bid"
    proof -
      have "gig\<lparr>g_status := ''in_progress''\<rparr> \<in> set (gigs (snd (accept_bid bid_id db)))"
        unfolding post(3) set_map using g_mem by (intro image_eqI [of _ _ gig]) simp_all
      then show ?thesis using g_mem(2) by (intro bexI [of _ "gig\<lparr>g_status := ''in_progress''\<rparr>"]) simp_all
    qed
    show "\<forall>g\<in>set (gigs (snd (accept_bid bid_id db))).
            g_id g = b_gig_id bid \<longrightarrow> g_status g = ''in_progress''"
      unfolding post(3) by auto
    show "length (tasks_of_bid bid_id (snd (accept_bid bid_id db))) =
           Suc (length (tasks_of_bid bid_id db))"
      by (simp add: tasks_of_bid_def post(4))
  qed
qed

text \<open>On the example store the first bid is accepted and gets its one task.\<close>

theorem accept_bid_outcome_witness:
  "reachable gig_demo \<and> fst (fst (accept_bid 1 gig_demo)) = True \<and>
   map b_status (bids (snd (accept_bid 1 gig_demo))) = [''accepted'', ''rejected''] \<and>
   map b_id (accepted_bids 1 (snd (accept_bid 1 gig_demo))) = [1] \<and>
   map g_status (gigs (snd (accept_bid 1 gig_demo))) = [''in_progress''] \<and>
   length (tasks_of_bid 1 (snd (accept_bid 1 gig_demo))) = 1"
proof -
  have ok: "fst (fst (accept_bid 1 gig_demo)) = True"
    by (simp add: gig_demo_eval accept_bid_def)
  have before: "tasks_of_bid 1 gig_demo = []"
    by (simp add: gig_demo_eval tasks_of_bid_def)
  from accept_bid_outcome [OF reachable_gig_demo, of 1] ok before
  have "length (tasks_of_bid 1 (snd (accept_bid 1 gig_demo))) = 1" by auto
  moreover have "map b_status (bids (snd (accept_bid 1 gig_demo))) = [''accepted'', ''rejected'']"
    by (simp add: gig_demo_eval accept_bid_def)
  moreover have "map b_id (accepted_bids 1 (snd (accept_bid 1 gig_demo))) = [1]"
    by (simp add: gig_demo_eval accept_bid_def accepted_bids_def)
  moreover have "map g_status (gigs (snd (accept_bid 1 gig_demo))) = [''in_progress'']"
    by (simp add: gig_demo_eval accept_bid_def)
  ultimately show ?thesis using ok reachable_gig_demo by simp
qed

text \<open>
  Accepting the same bid again succeeds as well, and then two tasks reference it.
\<close>

theorem accept_bid_twice_counterexample:
  "fst (fst (accept_bid 1 gig_demo)) = True \<and>
   fst (fst (accept_bid 1 (snd (accept_bid 1 gig_demo)))) = True \<and>
   length (tasks_of_bid 1 (snd (accept_bid 1 (snd (accept_bid 1 gig_demo))))) = 2"
  by (simp add: gig_demo_eval accept_bid_def tasks_of_bid_def next_id_def)

text \<open>
  Claim C8, as the code has it. \<^verbatim>\<open>accept_bid\<close> succeeds exactly when the bid row and
  the gig row it references exist; the status of the gig is not read. When it fails, the
  store is left as it was.
\<close>

theorem accept_bid_validation:
  "(fst (fst (accept_bid bid_id db)) = True) =
     (\<exists>bid gig. find (\<lambda>b. b_id b = bid_id) (bids db) = Some bid \<and>
        find (\<lambda>g. g_id g = b_gig_id bid) (gigs db) = Some gig) \<and>
   (fst (fst (accept_bid bid_id db)) = False \<longrightarrow> snd (accept_bid bid_id db) = db)"
  by (simp add: accept_bid_def Let_def split: option.splits)

text \<open>There is no bid 9 in the example store; bid 1 exists and so does its gig.\<close>

theorem accept_bid_validation_witness:
  "fst (fst (accept_bid 9 gig_demo)) = False \<and> snd (accept_bid 9 gig_demo) = gig_demo \<and>
   fst (fst (accept_bid 1 gig_demo)) = True"
proof -
  have no: "fst (fst (accept_bid 9 gig_demo)) = False"
    by (simp add: gig_demo_eval accept_bid_def)
  with accept_bid_validation [of 9 gig_demo] have "snd (accept_bid 9 gig_demo) = gig_demo"
    by blast
  moreover have "fst (fst (accept_bid 1 gig_demo)) = True"
    by (simp add: gig_demo_eval accept_bid_def)
  ultimately show ?thesis using no by simp
qed

text \<open>
  After the first bid was accepted the gig is in progress, not open. Accepting the second
  bid still succeeds: a second task is created and the statuses of both bids change.
\<close>

theorem accept_bid_closed_gig_counterexample:
  "map g_status (gigs accepted_demo) = [''in_progress''] \<and>
   fst (fst (accept_bid 2 accepted_demo)) = True \<and>
   length (tasks accepted_demo) = 1 \<and>
   length (tasks (snd (accept_bid 2 accepted_demo))) = 2 \<and>
   map b_status (bids accepted_demo) = [''accepted'', ''rejected''] \<and>
   map b_status (bids (snd (accept_bid 2 accepted_demo))) = [''rejected'', ''accepted'']"
  by (simp add: accepted_demo_def gig_demo_eval accept_bid_def)

text \<open>
  Claim C7. \<^verbatim>\<open>place_bid\<close> fails and leaves the store unchanged, so no bid row is
  inserted, when the amount is not positive, when the bidder already has a bid on the gig,
  or when the gig has a fixed budget and the amount exceeds one and a half times that
  budget. In particular a bid of 160 on a fixed-budget gig of 100 is rejected.
\<close>

theorem place_bid_rejects:
  "(amount \<le> 0 \<or>
    (\<exists>b\<in>set (bids db). b_gig_id b = gig_id \<and> b_bidder_id b = bidder_id) \<or>
    (\<exists>gig budget. find (\<lambda>g. g_id g = gig_id) (gigs db) = Some gig \<and>
        g_budget_type gig = ''fixed'' \<and> g_budget_amount gig = Some budget \<and>
        amount > budget * 1.5) \<longrightarrow>
    fst (fst (place_bid gig_id bidder_id amount estimated_time proposal db)) = False \<and>
    snd (place_bid gig_id bidder_id amount estimated_time proposal db) = db) \<and>
   (\<forall>gig. find (\<lambda>g. g_id g = gig_id) (gigs db) = Some gig \<and>
        g_budget_type gig = ''fixed'' \<and> g_budget_amount gig = Some 100 \<longrightarrow>
    fst (fst (place_bid gig_id bidder_id 160 estimated_time proposal db)) = False \<and>
    snd (place_bid gig_id bidder_id 160 estimated_time proposal db) = db)"
proof -
  let ?r = "place_bid gig_id bidder_id amount estimated_time proposal db"
  have neg: "fst (fst ?r) = False \<and> snd ?r = db" if "amount \<le> 0"
    using that by (simp add: place_bid_def Let_def)
  have dup: "fst (fst ?r) = False \<and> snd ?r = db"
    if "\<exists>b\<in>set (bids db). b_gig_id b = gig_id \<and> b_bidder_id b = bidder_id"
  proof -
    from that have "find (\<lambda>b. b_gig_id b = gig_id \<and> b_bidder_id b = bidder_id) (bids db) \<noteq> None"
      by (auto simp: find_None_iff)
    then show ?thesis by (simp add: place_bid_def Let_def)
  qed
  have over: "fst (fst (place_bid gig_id bidder_id a estimated_time proposal db)) = False \<and>
              snd (place_bid gig_id bidder_id a estimated_time proposal db) = db"
    if "find (\<lambda>g. g_id g = gig_id) (gigs db) = Some gig" "g_budget_type gig = ''fixed''"
       "g_budget_amount gig = Some budget" "a > budget * 1.5" for gig budget a
    using that by (simp add: place_bid_def Let_def)
  have ex: "fst (fst (place_bid gig_id bidder_id 160 estimated_time proposal db)) = False \<and>
            snd (place_bid gig_id bidder_id 160 estimated_time proposal db) = db"
    if "find (\<lambda>g. g_id g = gig_id) (gigs db) = Some gig" "g_budget_type gig = ''fixed''"
       "g_budget_amount gig = Some 100" for gig
    by (rule over [OF that]) simp
  from neg dup over [where a = amount] ex show ?thesis by blast
qed

text \<open>
  On the example gig of budget 100: 160 is rejected, a second bid of user 2 is rejected, a
  bid of 0 is rejected, and 150 is still allowed.
\<close>

theorem place_bid_rejects_witness:
  "fst (fst (place_bid 1 4 160 ''1 day'' ''mine'' gig_demo)) = False \<and>
   snd (place_bid 1 4 160 ''1 day'' ''mine'' gig_demo) = gig_demo \<and>
   fst (fst (place_bid 1 2 50 ''1 day'' ''again'' gig_demo)) = False \<and>
   fst (fst (place_bid 1 4 0 ''1 day'' ''free'' gig_demo)) = False \<and>
   fst (fst (place_bid 1 4 150 ''1 day'' ''limit'' gig_demo)) = True"
proof -
  have g: "find (\<lambda>g. g_id g = 1) (gigs gig_demo) = Some (hd (gigs gig_demo)) \<and>
      g_budget_type (hd (gigs gig_demo)) = ''fixed'' \<and>
      g_budget_amount (hd (gigs gig_demo)) = Some 100"
    by (simp add: gig_demo_eval)
  with place_bid_rejects [of 160 gig_demo 1 4 "''1 day''" "''mine''"]
  have "fst (fst (place_bid 1 4 160 ''1 day'' ''mine'' gig_demo)) = False \<and>
        snd (place_bid 1 4 160 ''1 day'' ''mine'' gig_demo) = gig_demo"
    by blast
  moreover have "fst (fst (place_bid 1 2 50 ''1 day'' ''again'' gig_demo)) = False"
    by (simp add: gig_demo_eval place_bid_def)
  moreover have "fst (fst (place_bid 1 4 0 ''1 day'' ''free'' gig_demo)) = False"
    by (simp add: gig_demo_eval place_bid_def)
  moreover have "fst (fst (place_bid 1 4 150 ''1 day'' ''limit'' gig_demo)) = True"
    by (simp add: gig_demo_eval place_bid_def)
  ultimately show ?thesis by simp
qed

section \<open>Properties of task completion\<close>

lemma review_demo_eval: "review_demo =
  \<lparr>users =
     [\<lparr>u_id = 1, u_username = ''cara'', u_skills = None, u_rating = 0, u_completed_tasks = 0,
         u_total_earnings = 0\<rparr>,
      \<lparr>u_id = 2, u_username = ''fred'', u_skills = Some ''drawing'', u_rating = 4,
         u_completed_tasks = 1, u_total_earnings = 50\<rparr>,
      \<lparr>u_id = 3, u_username = ''gil'', u_skills = None, u_rating = 0, u_completed_tasks = 0,
         u_total_earnings = 0\<rparr>],
   gigs =
     [\<lparr>g_id = 1, g_user_id = 1, g_title = ''Logo'', g_description = ''Design a logo'',
         g_category = ''Design'', g_budget_type = ''fixed'', g_budget_amount = Some 100,
         g_time_estimate = ''2 days'', g_urgency = ''High'', g_status = ''in_progress'',
         g_deadline = ''2025-01-01'', g_location = ''Campus''\<rparr>],
   bids =
     [\<lparr>b_id = 1, b_gig_id = 1, b_bidder_id = 2, b_amount = 90, b_estimated_time = ''1 day'',
         b_proposal = ''I can do it'', b_status = ''accepted''\<rparr>,
      \<lparr>b_id = 2, b_gig_id = 1, b_bidder_id = 3, b_amount = 120, b_estimated_time = ''2 days'',
         b_proposal = ''Portfolio attached'', b_status = ''rejected''\<rparr>],
   tasks =
     [\<lparr>t_id = 1, t_gig_id = 1, t_bid_id = 1, t_client_id = 1, t_freelancer_id = 2,
         t_amount = 90, t_status = ''pending_review'', t_completed_at = None,
         t_client_rating = None, t_client_review = None\<rparr>],
   portfolio = [], clock = 0\<rparr>"
  by (simp add: review_demo_def accepted_demo_def gig_demo_eval gig_defs)

lemma update_task_id [simp]: "t_id (update_task task user_id rating review now t) = t_id t"
  by (simp add: update_task_def split: option.splits)

lemma update_task_gig [simp]: "t_gig_id (update_task task user_id rating review now t) = t_gig_id t"
  by (simp add: update_task_def split: option.splits)

lemma update_stats_id [simp]: "u_id (update_stats amount new_rating u) = u_id u"
  by (simp add: update_stats_def)

lemma update_stats_skills [simp]: "u_skills (update_stats amount new_rating u) = u_skills u"
  by (simp add: update_stats_def)

lemma completion_effects_users:
  "users (completion_effects task_id task rating db) =
     map (\<lambda>u. if u_id u = t_freelancer_id task
               then update_stats (t_amount task) (rating_or_5 rating) u else u) (users db)"
  by (simp add: completion_effects_def Let_def split: option.splits)

lemma completion_effects_tasks: "tasks (completion_effects task_id task rating db) = tasks db"
  by (simp add: completion_effects_def Let_def split: option.splits)

lemma select_one_gig:
  "[f g. g \<leftarrow> gs, t_gig_id t = g_id g \<and> t_id t = k] =
     (if t_id t = k then map f (filter (\<lambda>g. g_id g = t_gig_id t) gs) else [])"
  by (induction gs) auto

lemma select_one_task:
  "concat (map (\<lambda>t. if t_id t = k then h t else []) ts) =
     concat (map h (filter (\<lambda>t. t_id t = k) ts))"
  by (induction ts) auto

lemma join_single:
  assumes "distinct (map t_id ts)" and "find (\<lambda>t. t_id t = k) ts = Some t0"
    and "distinct (map g_id gs)" and "find (\<lambda>g. g_id g = t_gig_id t0) gs = Some g0"
  shows "[f t g. t \<leftarrow> ts, g \<leftarrow> gs, t_gig_id t = g_id g \<and> t_id t = k] = [f t0 g0]"
proof -
  have "[f t g. t \<leftarrow> ts, g \<leftarrow> gs, t_gig_id t = g_id g \<and> t_id t = k] =
        concat (map (\<lambda>t. if t_id t = k then map (f t) (filter (\<lambda>g. g_id g = t_gig_id t) gs) else []) ts)"
    by (simp only: select_one_gig)
  also have "\<dots> = concat (map (\<lambda>t. map (f t) (filter (\<lambda>g. g_id g = t_gig_id t) gs))
                     (filter (\<lambda>t. t_id t = k) ts))"
    by (rule select_one_task)
  also have "\<dots> = [f t0 g0]"
    by (simp add: filter_key_single [OF assms(1,2)] filter_key_single [OF assms(3,4)])
  finally show ?thesis .
qed

lemma completion_effects_portfolio:
  assumes "distinct (map t_id (tasks db))" and "find (\<lambda>t. t_id t = task_id) (tasks db) = Some t1"
    and "distinct (map g_id (gigs db))" and "find (\<lambda>g. g_id g = t_gig_id t1) (gigs db) = Some gig"
  shows "portfolio (completion_effects task_id task rating db) = portfolio db @
     [\<lparr> p_id = next_id (map p_id (portfolio db)), p_user_id = t_freelancer_id task,
        p_task_id = task_id, p_title = g_title gig, p_description = g_description gig,
        p_skills_used = (case find (\<lambda>u. u_id u = t_freelancer_id task) (users db) of
                           None \<Rightarrow> None | Some u \<Rightarrow> u_skills u),
        p_completion_date = t_completed_at t1, p_client_feedback = t_client_review t1,
        p_rating = t_client_rating t1 \<rparr>]"
proof -
  have id: "t_id t1 = task_id" using find_Some_mem [OF assms(2)] by simp
  have sk: "(case find (\<lambda>u. u_id u = fid) (map (\<lambda>u. if u_id u = fid then update_stats a n u else u) us) of
              None \<Rightarrow> None | Some u \<Rightarrow> u_skills u) =
            (case find (\<lambda>u. u_id u = fid) us of None \<Rightarrow> None | Some u \<Rightarrow> u_skills u)" for fid a n us
    by (simp add: find_map_update [where key = u_id] split: option.splits)
  show ?thesis
    using id
    by (simp add: completion_effects_def Let_def portfolio_rows_def join_single [OF assms] sk
        split: option.splits)
qed

lemma completion_effects_gigs:
  assumes "find (\<lambda>t. t_id t = task_id) (tasks db) = Some t1"
  shows "gigs (completion_effects task_id task rating db) =
     map (\<lambda>g. if g_id g = t_gig_id t1 then g\<lparr>g_status := ''completed''\<rparr> else g) (gigs db)"
  using assms by (simp add: completion_effects_def Let_def)

lemma complete_task_client_review:
  assumes "find (\<lambda>t. t_id t = task_id) (tasks db) = Some task"
    and "t_status task = ''pending_review''"
    and "rating = None \<or> (\<exists>r. rating = Some r \<and> 1 \<le> r \<and> r \<le> 5)"
  shows "complete_task task_id (t_client_id task) rating review db =
     ((True, ''Task updated successfully!''),
      completion_effects task_id task rating
        (db\<lparr>tasks := map (\<lambda>t. if t_id t = task_id
                               then update_task task (t_client_id task) rating review (clock db) t
                               else t) (tasks db)\<rparr>))"
  using assms by (auto simp: complete_task_def Let_def)

text \<open>
  Claim C6. When the client completes a task that is pending review, with a rating from
  1 to 5 or with none, the call succeeds and the freelancer's row gets the rating
  \<open>(old_rating * old_count + new_rating) / (old_count + 1)\<close>, where \<open>new_rating\<close> is 5
  when none was given and \<open>old_count\<close> is the completed-task count before the call; the
  count grows by one and the task amount is added to the total earnings.
\<close>

theorem complete_task_rating_update:
  assumes task: "find (\<lambda>t. t_id t = task_id) (tasks db) = Some task"
    and st: "t_status task = ''pending_review''"
    and rt: "rating = None \<or> (\<exists>r. rating = Some r \<and> 1 \<le> r \<and> r \<le> 5)"
    and usr: "find (\<lambda>u. u_id u = t_freelancer_id task) (users db) = Some u"
  shows "fst (fst (complete_task task_id (t_client_id task) rating review db)) = True \<and>
    (\<exists>u'. find (\<lambda>u. u_id u = t_freelancer_id task)
             (users (snd (complete_task task_id (t_client_id task) rating review db))) = Some u' \<and>
       u_rating u' = (u_rating u * real (u_completed_tasks u) +
                        (case rating of None \<Rightarrow> 5 | Some r \<Rightarrow> real_of_int r)) /
                     (real (u_completed_tasks u) + 1) \<and>
       u_completed_tasks u' = u_completed_tasks u + 1 \<and>
       u_total_earnings u' = u_total_earnings u + t_amount task)"
proof -
  let ?u' = "update_stats (t_amount task) (rating_or_5 rating) u"
  have nr: "real_of_int (rating_or_5 rating) = (case rating of None \<Rightarrow> 5 | Some r \<Rightarrow> real_of_int r)"
    using rt by (auto simp: rating_or_5_def)
  have "find (\<lambda>u. u_id u = t_freelancer_id task)
          (users (snd (complete_task task_id (t_client_id task) rating review db))) = Some ?u'"
    by (simp add: complete_task_client_review [OF task st rt] completion_effects_users
        find_map_update [where key = u_id] usr)
  moreover have "u_rating ?u' = (u_rating u * real (u_completed_tasks u) +
                        (case rating of None \<Rightarrow> 5 | Some r \<Rightarrow> real_of_int r)) /
                     (real (u_completed_tasks u) + 1)"
    by (simp add: update_stats_def nr add.commute)
  moreover have "u_completed_tasks ?u' = u_completed_tasks u + 1"
    "u_total_earnings ?u' = u_total_earnings u + t_amount task"
    by (simp_all add: update_stats_def)
  ultimately show ?thesis
    by (simp add: complete_task_client_review [OF task st rt])
qed

text \<open>
  The freelancer of the example has rating 4 after one task: a rating of 3 gives 7/2, no
  rating gives 9/2.
\<close>

theorem complete_task_rating_update_witness:
  "find (\<lambda>t. t_id t = 1) (tasks review_demo) = Some (hd (tasks review_demo)) \<and>
   t_status (hd (tasks review_demo)) = ''pending_review'' \<and>
   find (\<lambda>u. u_id u = 2) (users review_demo) = Some (users review_demo ! 1) \<and>
   map u_rating (users (snd (complete_task 1 1 (Some 3) (Some ''fine'') review_demo))) = [0, 7 / 2, 0] \<and>
   map u_rating (users (snd (complete_task 1 1 None None review_demo))) = [0, 9 / 2, 0] \<and>
   map u_completed_tasks (users (snd (complete_task 1 1 (Some 3) (Some ''fine'') review_demo))) = [0, 2, 0] \<and>
   map u_total_earnings (users (snd (complete_task 1 1 (Some 3) (Some ''fine'') review_demo))) = [0, 140, 0] \<and>
   fst (fst (complete_task 1 1 (Some 3) (Some ''fine'') review_demo)) = True"
proof -
  have task: "find (\<lambda>t. t_id t = 1) (tasks review_demo) = Some (hd (tasks review_demo))"
    and st: "t_status (hd (tasks review_demo)) = ''pending_review''"
    and usr: "find (\<lambda>u. u_id u = t_freelancer_id (hd (tasks review_demo))) (users review_demo) =
                Some (users review_demo ! 1)"
    and cl: "t_client_id (hd (tasks review_demo)) = 1"
    and fr: "t_freelancer_id (hd (tasks review_demo)) = 2"
    by (simp_all add: review_demo_eval)
  have rt: "Some 3 = None \<or> (\<exists>r. Some 3 = Some r \<and> 1 \<le> r \<and> r \<le> (5::int))" by simp
  from complete_task_rating_update [OF task st rt usr, of "Some ''fine''"] cl
  have "fst (fst (complete_task 1 1 (Some 3) (Some ''fine'') review_demo)) = True" by simp
  moreover have
    "map u_rating (users (snd (complete_task 1 1 (Some 3) (Some ''fine'') review_demo))) = [0, 7 / 2, 0]"
    "map u_rating (users (snd (complete_task 1 1 None None review_demo))) = [0, 9 / 2, 0]"
    "map u_completed_tasks (users (snd (complete_task 1 1 (Some 3) (Some ''fine'') review_demo))) = [0, 2, 0]"
    "map u_total_earnings (users (snd (complete_task 1 1 (Some 3) (Some ''fine'') review_demo))) = [0, 140, 0]"
    by (simp_all add: review_demo_eval gig_defs)
  ultimately show ?thesis using task st usr fr by simp
qed

lemma update_task_rated_status:
  "t_status (update_task task (t_client_id task) (Some r) review now t) = t_status t"
  by (simp add: update_task_def)

lemma complete_task_tasks:
  assumes "find (\<lambda>t. t_id t = task_id) (tasks db) = Some task"
  shows "tasks (snd (complete_task task_id user_id rating review db)) = tasks db \<or>
    tasks (snd (complete_task task_id user_id rating review db)) =
      map (\<lambda>t. if t_id t = task_id then update_task task user_id rating review (clock db) t else t)
        (tasks db)"
  using assms by (simp add: complete_task_def Let_def completion_effects_tasks)

lemma complete_task_completed_origin:
  assumes task: "find (\<lambda>t. t_id t = task_id) (tasks db) = Some task"
    and t': "t' \<in> set (tasks (snd (complete_task task_id user_id rating review db)))"
    and cmp: "t_status t' = ''completed''"
  shows "(rating = None \<and> user_id = t_client_id task) \<or>
         (\<exists>t\<in>set (tasks db). t_id t = t_id t' \<and> t_status t = ''completed'')"
  using complete_task_tasks [OF task, of user_id rating review]
proof
  assume "tasks (snd (complete_task task_id user_id rating review db)) = tasks db"
  with t' cmp show ?thesis by auto
next
  assume eq: "tasks (snd (complete_task task_id user_id rating review db)) =
      map (\<lambda>t. if t_id t = task_id then update_task task user_id rating review (clock db) t else t)
        (tasks db)"
  from t' obtain t where t: "t \<in> set (tasks db)"
    and t'_def: "t' = (if t_id t = task_id then update_task task user_id rating review (clock db) t else t)"
    unfolding eq by auto
  show ?thesis
  proof (cases "t_id t = task_id \<and> t_status t \<noteq> ''completed''")
    case True
    with t'_def cmp have "rating = None \<and> user_id = t_client_id task"
      by (auto simp: update_task_def split: if_splits option.splits)
    then show ?thesis by simp
  next
    case False
    with t'_def cmp have "t_id t = t_id t' \<and> t_status t = ''completed''"
      by (auto split: if_splits)
    with t show ?thesis by blast
  qed
qed

text \<open>
  Claim C9. When the client calls \<^verbatim>\<open>complete_task\<close> with a rating from 1 to 5 on a
  task that is pending review (task and gig ids being primary keys, the gig existing), the
  call succeeds, the task row gets the rating and the review, the status of every task is
  as before, the freelancer's statistics are updated, one portfolio row is added and the
  gig becomes completed. For any call at all, a task that is completed afterwards was
  completed before, unless the caller is the client and gave no rating.
\<close>

theorem complete_task_rated_keeps_status:
  assumes task: "find (\<lambda>t. t_id t = task_id) (tasks db) = Some task"
    and st: "t_status task = ''pending_review''"
    and r: "1 \<le> r" "r \<le> 5"
    and pk_t: "distinct (map t_id (tasks db))"
    and pk_g: "distinct (map g_id (gigs db))"
    and gig: "find (\<lambda>g. g_id g = t_gig_id task) (gigs db) = Some gig"
  shows "fst (fst (complete_task task_id (t_client_id task) (Some r) review db)) = True \<and>
    find (\<lambda>t. t_id t = task_id)
      (tasks (snd (complete_task task_id (t_client_id task) (Some r) review db))) =
      Some (task\<lparr>t_client_rating := Some r, t_client_review := review\<rparr>) \<and>
    map t_status (tasks (snd (complete_task task_id (t_client_id task) (Some r) review db))) =
      map t_status (tasks db) \<and>
    users (snd (complete_task task_id (t_client_id task) (Some r) review db)) =
      map (\<lambda>u. if u_id u = t_freelancer_id task then update_stats (t_amount task) r u else u)
        (users db) \<and>
    portfolio (snd (complete_task task_id (t_client_id task) (Some r) review db)) =
      portfolio db @
      [\<lparr> p_id = next_id (map p_id (portfolio db)), p_user_id = t_freelancer_id task,
         p_task_id = task_id, p_title = g_title gig, p_description = g_description gig,
         p_skills_used = (case find (\<lambda>u. u_id u = t_freelancer_id task) (users db) of
                            None \<Rightarrow> None | Some u \<Rightarrow> u_skills u),
         p_completion_date = t_completed_at task, p_client_feedback = review,
         p_rating = Some r \<rparr>] \<and>
    find (\<lambda>g. g_id g = t_gig_id task)
      (gigs (snd (complete_task task_id (t_client_id task) (Some r) review db))) =
      Some (gig\<lparr>g_status := ''completed''\<rparr>) \<and>
    (\<forall>t'\<in>set (tasks (snd (complete_task task_id user_id rating review' db))).
       t_status t' = ''completed'' \<longrightarrow>
       (rating = None \<and> user_id = t_client_id task) \<or>
       (\<exists>t\<in>set (tasks db). t_id t = t_id t' \<and> t_status t = ''completed''))"
proof -
  let ?upd = "\<lambda>t. if t_id t = task_id
                   then update_task task (t_client_id task) (Some r) review (clock db) t else t"
  let ?db1 = "db\<lparr>tasks := map ?upd (tasks db)\<rparr>"
  let ?t1 = "task\<lparr>t_client_rating := Some r, t_client_review := review\<rparr>"
  have rt: "Some r = None \<or> (\<exists>r'. Some r = Some r' \<and> 1 \<le> r' \<and> r' \<le> 5)" using r by simp
  note run = complete_task_client_review [OF task st rt, of review]
  have idf: "(\<lambda>t. t_id (?upd t)) = t_id" by (rule ext) simp
  have pk1: "distinct (map t_id (tasks ?db1))" using pk_t by (simp add: comp_def idf)
  have "find (\<lambda>t. t_id t = task_id) (map ?upd (tasks db)) =
          map_option (update_task task (t_client_id task) (Some r) review (clock db))
            (find (\<lambda>t. t_id t = task_id) (tasks db))"
    by (rule find_map_update) simp
  then have f1: "find (\<lambda>t. t_id t = task_id) (tasks ?db1) = Some ?t1"
    by (simp add: task update_task_def)
  have g1: "find (\<lambda>g. g_id g = t_gig_id ?t1) (gigs ?db1) = Some gig" using gig by simp
  have pg1: "distinct (map g_id (gigs ?db1))" using pk_g by simp
  have nr: "rating_or_5 (Some r) = r" using r by (simp add: rating_or_5_def)
  have a1: "fst (fst (complete_task task_id (t_client_id task) (Some r) review db)) = True"
    by (simp add: run)
  have a2: "find (\<lambda>t. t_id t = task_id)
      (tasks (snd (complete_task task_id (t_client_id task) (Some r) review db))) = Some ?t1"
    using f1 by (simp add: run completion_effects_tasks)
  have a3: "map t_status (tasks (snd (complete_task task_id (t_client_id task) (Some r) review db))) =
      map t_status (tasks db)"
    by (simp add: run completion_effects_tasks comp_def update_task_rated_status)
  have a4: "users (snd (complete_task task_id (t_client_id task) (Some r) review db)) =
      map (\<lambda>u. if u_id u = t_freelancer_id task then update_stats (t_amount task) r u else u)
        (users db)"
    by (simp add: run completion_effects_users nr)
  have a5: "portfolio (snd (complete_task task_id (t_client_id task) (Some r) review db)) =
      portfolio db @
      [\<lparr> p_id = next_id (map p_id (portfolio db)), p_user_id = t_freelancer_id task,
         p_task_id = task_id, p_title = g_title gig, p_description = g_description gig,
         p_skills_used = (case find (\<lambda>u. u_id u = t_freelancer_id task) (users db) of
                            None \<Rightarrow> None | Some u \<Rightarrow> u_skills u),
         p_completion_date = t_completed_at task, p_client_feedback = review,
         p_rating = Some r \<rparr>]"
    using completion_effects_portfolio [OF pk1 f1 pg1 g1, of task "Some r"]
    by (simp add: run)
  have "find (\<lambda>g. g_id g = t_gig_id task)
          (map (\<lambda>g. if g_id g = t_gig_id task then g\<lparr>g_status := ''completed''\<rparr> else g) (gigs db)) =
        map_option (\<lambda>g. g\<lparr>g_status := ''completed''\<rparr>) (find (\<lambda>g. g_id g = t_gig_id task) (gigs db))"
    by (rule find_map_update) simp
  then have a6: "find (\<lambda>g. g_id g = t_gig_id task)
      (gigs (snd (complete_task task_id (t_client_id task) (Some r) review db))) =
      Some (gig\<lparr>g_status := ''completed''\<rparr>)"
    using completion_effects_gigs [OF f1, of task "Some r"] gig by (simp add: run)
  have b: "\<forall>t'\<in>set (tasks (snd (complete_task task_id user_id rating review' db))).
       t_status t' = ''completed'' \<longrightarrow>
       (rating = None \<and> user_id = t_client_id task) \<or>
       (\<exists>t\<in>set (tasks db). t_id t = t_id t' \<and> t_status t = ''completed'')"
    using complete_task_completed_origin [OF task] by blast
  from a1 a2 a3 a4 a5 a6 b show ?thesis by blast
qed

lemma reviewed_demo_eval: "reviewed_demo =
  \<lparr>users =
     [\<lparr>u_id = 1, u_username = ''cara'', u_skills = None, u_rating = 0, u_completed_tasks = 0,
         u_total_earnings = 0\<rparr>,
      \<lparr>u_id = 2, u_username = ''fred'', u_skills = Some ''drawing'', u_rating = 9 / 2,
         u_completed_tasks = 2, u_total_earnings = 140\<rparr>,
      \<lparr>u_id = 3, u_username = ''gil'', u_skills = None, u_rating = 0, u_completed_tasks = 0,
         u_total_earnings = 0\<rparr>],
   gigs =
     [\<lparr>g_id = 1, g_user_id = 1, g_title = ''Logo'', g_description = ''Design a logo'',
         g_category = ''Design'', g_budget_type = ''fixed'', g_budget_amount = Some 100,
         g_time_estimate = ''2 days'', g_urgency = ''High'', g_status = ''completed'',
         g_deadline = ''2025-01-01'', g_location = ''Campus''\<rparr>],
   bids =
     [\<lparr>b_id = 1, b_gig_id = 1, b_bidder_id = 2, b_amount = 90, b_estimated_time = ''1 day'',
         b_proposal = ''I can do it'', b_status = ''accepted''\<rparr>,
      \<lparr>b_id = 2, b_gig_id = 1, b_bidder_id = 3, b_amount = 120, b_estimated_time = ''2 days'',
         b_proposal = ''Portfolio attached'', b_status = ''rejected''\<rparr>],
   tasks =
     [\<lparr>t_id = 1, t_gig_id = 1, t_bid_id = 1, t_client_id = 1, t_freelancer_id = 2,
         t_amount = 90, t_status = ''pending_review'', t_completed_at = None,
         t_client_rating = Some 5, t_client_review = Some ''ok''\<rparr>],
   portfolio =
     [\<lparr>p_id = 1, p_user_id = 2, p_task_id = 1, p_title = ''Logo'',
         p_description = ''Design a logo'', p_skills_used = Some ''drawing'',
         p_completion_date = None, p_client_feedback = Some ''ok'', p_rating = Some 5\<rparr>],
   clock = 0\<rparr>"
  by (simp add: reviewed_demo_def review_demo_eval gig_defs)

text \<open>
  On the example the rated review leaves the task pending review and fires the effects;
  the call without a rating completes the task.
\<close>

theorem complete_task_rated_keeps_status_witness:
  "find (\<lambda>t. t_id t = 1) (tasks review_demo) = Some (hd (tasks review_demo)) \<and>
   t_status (hd (tasks review_demo)) = ''pending_review'' \<and>
   distinct (map t_id (tasks review_demo)) \<and> distinct (map g_id (gigs review_demo)) \<and>
   find (\<lambda>g. g_id g = 1) (gigs review_demo) = Some (hd (gigs review_demo)) \<and>
   fst (fst (complete_task 1 1 (Some 5) (Some ''ok'') review_demo)) = True \<and>
   map t_status (tasks reviewed_demo) = [''pending_review''] \<and>
   map t_client_rating (tasks reviewed_demo) = [Some 5] \<and>
   map u_completed_tasks (users reviewed_demo) = [0, 2, 0] \<and>
   map p_task_id (portfolio reviewed_demo) = [1] \<and>
   map g_status (gigs reviewed_demo) = [''completed''] \<and>
   map t_status (tasks (snd (complete_task 1 1 None None review_demo))) = [''completed'']"
proof -
  have task: "find (\<lambda>t. t_id t = 1) (tasks review_demo) = Some (hd (tasks review_demo))"
    and st: "t_status (hd (tasks review_demo)) = ''pending_review''"
    and pk_t: "distinct (map t_id (tasks review_demo))"
    and pk_g: "distinct (map g_id (gigs review_demo))"
    and gig: "find (\<lambda>g. g_id g = t_gig_id (hd (tasks review_demo))) (gigs review_demo) =
                Some (hd (gigs review_demo))"
    and cl: "t_client_id (hd (tasks review_demo)) = 1"
    and gg: "t_gig_id (hd (tasks review_demo)) = 1"
    by (simp_all add: review_demo_eval)
  have r: "(1::int) \<le> 5" "(5::int) \<le> 5" by simp_all
  from complete_task_rated_keeps_status [OF task st r pk_t pk_g gig, of "Some ''ok''"] cl
  have "fst (fst (complete_task 1 1 (Some 5) (Some ''ok'') review_demo)) = True" by simp
  moreover have "map t_status (tasks reviewed_demo) = [''pending_review'']"
    "map t_client_rating (tasks reviewed_demo) = [Some 5]"
    "map u_completed_tasks (users reviewed_demo) = [0, 2, 0]"
    "map p_task_id (portfolio reviewed_demo) = [1]"
    "map g_status (gigs reviewed_demo) = [''completed'']"
    by (simp_all add: reviewed_demo_eval)
  moreover have "map t_status (tasks (snd (complete_task 1 1 None None review_demo))) = [''completed'']"
    by (simp add: review_demo_eval gig_defs)
  ultimately show ?thesis using task st pk_t pk_g gig gg by simp
qed

text \<open>
  Claim C2. The client submits the same review twice on the example task. Both calls
  succeed; the second one counts the task again: the completed-task count goes from 1 to 2
  and then to 3, the earnings from 50 to 140 and then to 230, the rating changes again and
  the portfolio holds the task twice.
\<close>

theorem complete_task_twice_double_counts:
  "map t_status (tasks review_demo) = [''pending_review''] \<and>
   map u_completed_tasks (users review_demo) = [0, 1, 0] \<and>
   map u_completed_tasks (users reviewed_demo) = [0, 2, 0] \<and>
   map u_completed_tasks (users reviewed_twice_demo) = [0, 3, 0] \<and>
   map u_total_earnings (users reviewed_demo) = [0, 140, 0] \<and>
   map u_total_earnings (users reviewed_twice_demo) = [0, 230, 0] \<and>
   map u_rating (users reviewed_demo) = [0, 9 / 2, 0] \<and>
   map u_rating (users reviewed_twice_demo) = [0, 14 / 3, 0] \<and>
   map p_task_id (portfolio reviewed_demo) = [1] \<and>
   map p_task_id (portfolio reviewed_twice_demo) = [1, 1] \<and>
   fst (fst (complete_task 1 1 (Some 5) (Some ''ok'') reviewed_demo)) = True"
  by (simp add: reviewed_twice_demo_def reviewed_demo_eval review_demo_eval gig_defs)

text \<open>
  When the first completion by the client carries no rating, the task becomes completed
  and a further call by the client changes neither the statistics nor the portfolio.
\<close>

lemma complete_task_unrated_once:
  assumes task: "find (\<lambda>t. t_id t = task_id) (tasks db) = Some task"
    and st: "t_status task = ''pending_review''"
  shows "users (snd (complete_task task_id (t_client_id task) rating review
                  (snd (complete_task task_id (t_client_id task) None None db)))) =
         users (snd (complete_task task_id (t_client_id task) None None db)) \<and>
         portfolio (snd (complete_task task_id (t_client_id task) rating review
                  (snd (complete_task task_id (t_client_id task) None None db)))) =
         portfolio (snd (complete_task task_id (t_client_id task) None None db))"
proof -
  let ?db' = "snd (complete_task task_id (t_client_id task) None None db)"
  let ?t1 = "task\<lparr>t_status := ''completed'', t_completed_at := Some (clock db)\<rparr>"
  have "find (\<lambda>t. t_id t = task_id)
          (map (\<lambda>t. if t_id t = task_id
                     then update_task task (t_client_id task) None None (clock db) t else t) (tasks db)) =
        map_option (update_task task (t_client_id task) None None (clock db))
          (find (\<lambda>t. t_id t = task_id) (tasks db))"
    by (rule find_map_update) simp
  then have f1: "find (\<lambda>t. t_id t = task_id) (tasks ?db') = Some ?t1"
    using complete_task_client_review [OF task st, of None None]
    by (simp add: completion_effects_tasks task update_task_def)
  show ?thesis
    by (simp add: complete_task_def [of task_id _ rating review ?db'] f1 Let_def)
qed

end
